theory Spec2Isabelle
  imports Complex_Main "HOL-Library.Multiset"
begin

section \<open>The training script \<^verbatim>\<open>ref-conv.py\<close>\<close>

text \<open>
  The script wires framework primitives together: a sequential network, two data
  loaders, an SGD optimiser with a StepLR scheduler, a training pass, an evaluation
  pass and the epoch loop of \<^verbatim>\<open>main\<close>.  The embedding keeps the control flow of the
  script and writes every raise as a value \<open>Inl e\<close>.  Floating-point numbers are
  idealised as real numbers throughout.  Framework code that no statement below looks
  into (the convolutional layers, the training criteria, automatic differentiation,
  the random sampler, the serialisation of checkpoints) enters as a parameter.  The model is applied to a batch example
  by example: none of its layers mixes the examples of a batch.
\<close>

subsection \<open>Errors and loops that may raise\<close>

datatype error =
  ZeroDivisionError | IndexError | ValueError | RuntimeError | TypeError | FileNotFoundError

text \<open>A \<^verbatim>\<open>for\<close> loop whose body may raise: the first error ends the loop.\<close>

fun foldE :: "('a \<Rightarrow> 's \<Rightarrow> error + 's) \<Rightarrow> 'a list \<Rightarrow> 's \<Rightarrow> error + 's" where
  "foldE f [] s = Inr s"
| "foldE f (x # xs) s = (case f x s of Inl e \<Rightarrow> Inl e | Inr s' \<Rightarrow> foldE f xs s')"

fun mapE :: "('a \<Rightarrow> error + 'b) \<Rightarrow> 'a list \<Rightarrow> error + 'b list" where
  "mapE f [] = Inr []"
| "mapE f (x # xs) =
     (case f x of Inl e \<Rightarrow> Inl e
      | Inr y \<Rightarrow> (case mapE f xs of Inl e \<Rightarrow> Inl e | Inr ys \<Rightarrow> Inr (y # ys)))"

subsection \<open>Tensors and the parameter set of \<^verbatim>\<open>Model\<close>\<close>

datatype tensor = Tensor (shape: "nat list") (entries: "real list")

text \<open>
  \<^verbatim>\<open>nn.Linear\<close>: \<open>y\<^sub>j = (\<Sum>i. w\<^sub>j\<^sub>i x\<^sub>i) + b\<^sub>j\<close>, the weight stored row by row; an
  input of the wrong length raises.
\<close>

definition Linear :: "tensor \<Rightarrow> tensor \<Rightarrow> real list \<Rightarrow> error + real list" where
  "Linear w b x =
     (case shape w of
        [out_features, in_features] \<Rightarrow>
          if shape b = [out_features] \<and> length (entries b) = out_features
             \<and> length (entries w) = out_features * in_features \<and> length x = in_features
          then Inr (map (\<lambda>j. (\<Sum>i\<leftarrow>[0..<in_features]. entries w ! (j * in_features + i) * x ! i)
                            + entries b ! j) [0..<out_features])
          else Inl RuntimeError
      | _ \<Rightarrow> Inl RuntimeError)"

text \<open>
  The learnable tensors of the nine-layer \<^verbatim>\<open>Sequential\<close>, under the names of their
  entries in the state dictionary: layers 0 and 2 are the convolutions, 6 and 8 the
  linear layers.
\<close>

record parameters =
  conv1_weight :: tensor
  conv1_bias :: tensor
  conv2_weight :: tensor
  conv2_bias :: tensor
  fc1_weight :: tensor
  fc1_bias :: tensor
  fc2_weight :: tensor
  fc2_bias :: tensor

text \<open>
  \<^verbatim>\<open>Model\<close> on one example.  Layers 0 to 7 (convolution, ReLU, convolution, ReLU,
  max-pooling, flattening, \<^verbatim>\<open>Linear(9216, 128)\<close>, ReLU) are the parameter
  \<open>layers_0_7\<close>, a function of their six tensors; layer 8 is \<^verbatim>\<open>Linear(128, 10)\<close>, and
  nothing follows it: the output is the raw class scores.
\<close>

definition hidden_parameters :: "parameters \<Rightarrow> tensor list" where
  "hidden_parameters p =
     [conv1_weight p, conv1_bias p, conv2_weight p, conv2_bias p, fc1_weight p, fc1_bias p]"

definition Model ::
  "(tensor list \<Rightarrow> 'x \<Rightarrow> error + real list) \<Rightarrow> parameters \<Rightarrow> 'x \<Rightarrow> error + real list" where
  "Model layers_0_7 p x =
     (case layers_0_7 (hidden_parameters p) x of
        Inl e \<Rightarrow> Inl e
      | Inr h \<Rightarrow> Linear (fc2_weight p) (fc2_bias p) h)"

text \<open>The shapes that the constructor calls of the script fix.\<close>

definition Model_shapes :: "(string \<times> nat list) list" where
  "Model_shapes =
     [(''0.weight'', [32, 1, 3, 3]), (''0.bias'', [32]),
      (''2.weight'', [64, 32, 3, 3]), (''2.bias'', [64]),
      (''6.weight'', [128, 9216]), (''6.bias'', [128]),
      (''8.weight'', [10, 128]), (''8.bias'', [10])]"

subsection \<open>Checkpoints\<close>

type_synonym checkpoint = "(string \<times> tensor) list"

definition state_dict :: "parameters \<Rightarrow> checkpoint" where
  "state_dict p =
     [(''0.weight'', conv1_weight p), (''0.bias'', conv1_bias p),
      (''2.weight'', conv2_weight p), (''2.bias'', conv2_bias p),
      (''6.weight'', fc1_weight p), (''6.bias'', fc1_bias p),
      (''8.weight'', fc2_weight p), (''8.bias'', fc2_bias p)]"

definition topology :: "parameters \<Rightarrow> (string \<times> nat list) list" where
  "topology p = map (\<lambda>(k, t). (k, shape t)) (state_dict p)"

text \<open>
  \<^verbatim>\<open>load_state_dict\<close> (strict): a missing key, an unexpected key or a tensor of another
  shape raises; otherwise every parameter takes the value stored under its name.
\<close>

definition load_state_dict :: "parameters \<Rightarrow> checkpoint \<Rightarrow> error + parameters" where
  "load_state_dict p ckpt =
     (if set (map fst ckpt) \<noteq> set (map fst (state_dict p)) then Inl RuntimeError
      else if list_ex (\<lambda>(k, t). map_option shape (map_of ckpt k) \<noteq> Some (shape t)) (state_dict p)
      then Inl RuntimeError
      else Inr \<lparr>conv1_weight = the (map_of ckpt ''0.weight''),
                conv1_bias = the (map_of ckpt ''0.bias''),
                conv2_weight = the (map_of ckpt ''2.weight''),
                conv2_bias = the (map_of ckpt ''2.bias''),
                fc1_weight = the (map_of ckpt ''6.weight''),
                fc1_bias = the (map_of ckpt ''6.bias''),
                fc2_weight = the (map_of ckpt ''8.weight''),
                fc2_bias = the (map_of ckpt ''8.bias'')\<rparr>)"

text \<open>
  The files of checkpoints.  A file is kept as the object that \<^verbatim>\<open>torch.save\<close> was given.
  What \<^verbatim>\<open>torch.load\<close> makes of a file is the framework's serialisation and enters as
  \<open>unpickle\<close>: the object, or the error, that reading back the file written from an
  object gives.  A path with no file raises.
\<close>

type_synonym files = "string \<rightharpoonup> checkpoint"

definition torch_save :: "files \<Rightarrow> checkpoint \<Rightarrow> string \<Rightarrow> files" where
  "torch_save fs obj path = fs(path \<mapsto> obj)"

definition torch_load ::
  "(checkpoint \<Rightarrow> error + checkpoint) \<Rightarrow> files \<Rightarrow> string \<Rightarrow> error + checkpoint" where
  "torch_load unpickle fs path =
     (case fs path of None \<Rightarrow> Inl FileNotFoundError | Some obj \<Rightarrow> unpickle obj)"

subsection \<open>The optimiser and the scheduler\<close>

text \<open>\<^verbatim>\<open>optim.SGD\<close> without momentum: every entry moves against its gradient.\<close>

definition sgd_tensor :: "real \<Rightarrow> tensor \<Rightarrow> tensor \<Rightarrow> tensor" where
  "sgd_tensor rate w g = Tensor (shape w) (map2 (\<lambda>v d. v - rate * d) (entries w) (entries g))"

definition SGD_step :: "real \<Rightarrow> parameters \<Rightarrow> parameters \<Rightarrow> parameters" where
  "SGD_step rate p g =
     \<lparr>conv1_weight = sgd_tensor rate (conv1_weight p) (conv1_weight g),
      conv1_bias = sgd_tensor rate (conv1_bias p) (conv1_bias g),
      conv2_weight = sgd_tensor rate (conv2_weight p) (conv2_weight g),
      conv2_bias = sgd_tensor rate (conv2_bias p) (conv2_bias g),
      fc1_weight = sgd_tensor rate (fc1_weight p) (fc1_weight g),
      fc1_bias = sgd_tensor rate (fc1_bias p) (fc1_bias g),
      fc2_weight = sgd_tensor rate (fc2_weight p) (fc2_weight g),
      fc2_bias = sgd_tensor rate (fc2_bias p) (fc2_bias g)\<rparr>"

text \<open>
  \<^verbatim>\<open>StepLR\<close>: a step advances \<open>last_epoch\<close> and multiplies the rate by \<open>gamma\<close> when
  the new \<open>last_epoch\<close> is a positive multiple of \<open>step_size\<close>.
\<close>

record StepLR =
  step_size :: nat
  gamma :: real
  last_epoch :: nat

definition get_lr :: "StepLR \<Rightarrow> real \<Rightarrow> error + real" where
  "get_lr sch rate =
     (if last_epoch sch = 0 then Inr rate
      else if step_size sch = 0 then Inl ZeroDivisionError
      else if last_epoch sch mod step_size sch \<noteq> 0 then Inr rate
      else Inr (rate * gamma sch))"

subsection \<open>Data loaders\<close>

record 'a DataLoader =
  dataset :: "'a list"
  batch_size :: nat
  shuffle :: bool

text \<open>
  The constructor refuses a batch size that is not positive and, with \<open>shuffle\<close>, an
  empty data set (the random sampler wants a positive number of samples).
\<close>

definition new_DataLoader :: "'a list \<Rightarrow> int \<Rightarrow> bool \<Rightarrow> error + 'a DataLoader" where
  "new_DataLoader ds n sh =
     (if sh \<and> ds = [] then Inl ValueError
      else if n \<le> 0 then Inl ValueError
      else Inr \<lparr>dataset = ds, batch_size = nat n, shuffle = sh\<rparr>)"

function chunks :: "nat \<Rightarrow> 'a list \<Rightarrow> 'a list list" where
  "chunks n xs = (if n = 0 \<or> xs = [] then [] else take n xs # chunks n (drop n xs))"
  by pat_completeness auto
termination
  by (relation "measure (\<lambda>(n, xs). length xs)") auto

declare chunks.simps [simp del]

text \<open>
  One pass over a loader: with \<open>shuffle\<close> the sampler draws an order \<open>perm\<close> of the
  data set, which is then cut into batches; the last batch may be short.
  \<^verbatim>\<open>len(loader)\<close> is the number of batches.
\<close>

definition batches :: "('a list \<Rightarrow> 'a list) \<Rightarrow> 'a DataLoader \<Rightarrow> 'a list list" where
  "batches perm dl =
     chunks (batch_size dl) (if shuffle dl then perm (dataset dl) else dataset dl)"

definition len_loader :: "'a DataLoader \<Rightarrow> nat" where
  "len_loader dl = (length (dataset dl) + batch_size dl - 1) div batch_size dl"

subsection \<open>Criteria and predictions\<close>

text \<open>
  The framework functions the script calls without looking into them: the two
  training criteria (each returns the loss of a batch of outputs against its targets),
  automatic differentiation (\<open>backward model p inputs criterion\<close> is the
  gradient, with respect to the parameters at \<open>p\<close>, of \<open>criterion\<close> applied to the outputs
  of the model on the batch), and the reading back of a saved checkpoint.
\<close>

record 'x torch =
  CrossEntropyLoss :: "real list list \<Rightarrow> int list \<Rightarrow> error + real"
  MSELoss :: "real list list \<Rightarrow> real list list \<Rightarrow> error + real"
  backward :: "(parameters \<Rightarrow> 'x \<Rightarrow> error + real list) \<Rightarrow> parameters \<Rightarrow> 'x list
                 \<Rightarrow> (real list list \<Rightarrow> error + real) \<Rightarrow> parameters"
  unpickle :: "checkpoint \<Rightarrow> error + checkpoint"

text \<open>
  \<^verbatim>\<open>(np.arange(10) == y[:, None]).astype(np.float32)\<close>: row \<open>i\<close> compares the label
  \<open>y\<^sub>i\<close> with each of 0, ..., 9.
\<close>

definition one_hot :: "int list \<Rightarrow> real list list" where
  "one_hot y = map (\<lambda>l. map (\<lambda>j. if int j = l then 1 else 0) [0..<10]) y"

text \<open>
  Lines 61 to 70 of \<^verbatim>\<open>train\<close>: the criterion, closed over the targets it will see.
  The targets are on the device of the run, and \<^verbatim>\<open>target.numpy()\<close> raises for a tensor
  that is not in host memory.
\<close>

datatype device = CPU | CUDA

definition select_loss ::
  "'x torch \<Rightarrow> device \<Rightarrow> string \<Rightarrow> int list \<Rightarrow> error + (real list list \<Rightarrow> error + real)" where
  "select_loss fw dev loss target =
     (if loss = ''CE'' then Inr (\<lambda>output. CrossEntropyLoss fw output target)
      else if dev = CUDA then Inl TypeError
      else Inr (\<lambda>output. MSELoss fw output (one_hot target)))"

text \<open>
  \<^verbatim>\<open>F.nll_loss(output, target, reduction='sum')\<close>: example \<open>i\<close> contributes
  \<open>- output\<^sub>i[target\<^sub>i]\<close>; a target equal to \<open>ignore_index\<close> contributes nothing, any
  other target outside the classes raises.
\<close>

definition ignore_index :: int where
  "ignore_index = - 100"

definition nll_one :: "real list \<Rightarrow> int \<Rightarrow> error + real" where
  "nll_one out t =
     (if t = ignore_index then Inr 0
      else if 0 \<le> t \<and> t < int (length out) then Inr (- (out ! nat t))
      else Inl IndexError)"

definition nll_loss_sum :: "real list list \<Rightarrow> int list \<Rightarrow> error + real" where
  "nll_loss_sum output target =
     (if length output \<noteq> length target then Inl ValueError
      else case mapE (\<lambda>(out, t). nll_one out t) (zip output target) of
             Inl e \<Rightarrow> Inl e
           | Inr ls \<Rightarrow> Inr (sum_list ls))"

text \<open>\<^verbatim>\<open>argmax\<close> along the classes: the first index of a largest score.\<close>

fun first_max :: "real list \<Rightarrow> nat" where
  "first_max [] = 0"
| "first_max [x] = 0"
| "first_max (x # y # ys) =
     (let j = first_max (y # ys) in if x < (y # ys) ! j then Suc j else 0)"

definition argmax :: "real list \<Rightarrow> error + nat" where
  "argmax out = (if out = [] then Inl IndexError else Inr (first_max out))"

subsection \<open>The state of a run\<close>

datatype line =
  Progress int nat nat real real
| Report real nat nat real

datatype call = Call_train int | Call_test | Call_scheduler_step

text \<open>
  What the script reads and writes while it runs.  \<open>steps\<close> and \<open>calls\<close> are not in
  the script: \<open>steps\<close> keeps the loss of every optimiser step taken, \<open>calls\<close> the calls
  the epoch loop has made, so that statements about them can be written down.
\<close>

record run_state =
  params :: parameters
  training :: bool
  grad_enabled :: bool
  opt_lr :: real
  scheduler :: StepLR
  loss_values :: "real list"
  stdout :: "line list"
  saved :: files
  steps :: "real list"
  calls :: "call list"

text \<open>
  Which pass printed a line: a progress line carries the epoch of its training pass,
  a report the number of examples of its evaluation pass.
\<close>

fun printed_by :: "line \<Rightarrow> int + nat" where
  "printed_by (Progress epoch seen n percent loss) = Inl epoch"
| "printed_by (Report loss correct n percent) = Inr n"

record FLAGS =
  data_dir :: string
  train_batch_size :: int
  test_batch_size :: int
  loss_fn :: string
  epochs :: int
  lr :: real
  log_interval :: int
  start_checkpoint :: "string option"
  save_model :: bool
  save_checkpoint :: string
  loss_fig :: string

subsection \<open>\<^verbatim>\<open>train\<close>\<close>

definition train_batch ::
  "'x torch \<Rightarrow> FLAGS \<Rightarrow> (parameters \<Rightarrow> 'x \<Rightarrow> error + real list) \<Rightarrow> device
     \<Rightarrow> ('x \<times> int) DataLoader \<Rightarrow> string \<Rightarrow> int \<Rightarrow> nat \<times> ('x \<times> int) list
     \<Rightarrow> run_state \<times> real list \<Rightarrow> error + run_state \<times> real list" where
  "train_batch fw flags model dev train_loader loss epoch = (\<lambda>(batch_idx, batch) (st, tmp_loss).
     let inputs = map fst batch; target = map snd batch in
     case mapE (model (params st)) inputs of
       Inl e \<Rightarrow> Inl e
     | Inr output \<Rightarrow>
         (case select_loss fw dev loss target of
            Inl e \<Rightarrow> Inl e
          | Inr criterion \<Rightarrow>
              (case criterion output of
                 Inl e \<Rightarrow> Inl e
               | Inr loss_ \<Rightarrow>
                   (let g = backward fw model (params st) inputs criterion;
                        st1 = st\<lparr>params := SGD_step (opt_lr st) (params st) g,
                                 steps := steps st @ [loss_]\<rparr>
                    in if log_interval flags = 0 then Inl ZeroDivisionError
                       else if int batch_idx mod log_interval flags = 0
                       then Inr (st1\<lparr>stdout := stdout st1 @
                                   [Progress epoch (batch_idx * length inputs)
                                      (length (dataset train_loader))
                                      (100 * real batch_idx / real (len_loader train_loader))
                                      loss_]\<rparr>,
                                 tmp_loss @ [loss_])
                       else Inr (st1, tmp_loss)))))"

definition train ::
  "'x torch \<Rightarrow> FLAGS \<Rightarrow> (parameters \<Rightarrow> 'x \<Rightarrow> error + real list) \<Rightarrow> device
     \<Rightarrow> ('x \<times> int) DataLoader \<Rightarrow> (('x \<times> int) list \<Rightarrow> ('x \<times> int) list) \<Rightarrow> string \<Rightarrow> int
     \<Rightarrow> run_state \<Rightarrow> error + run_state \<times> real list" where
  "train fw flags model dev train_loader perm loss epoch st =
     foldE (train_batch fw flags model dev train_loader loss epoch)
       (enumerate 0 (batches perm train_loader)) (st\<lparr>training := True\<rparr>, [])"

subsection \<open>\<^verbatim>\<open>test\<close>\<close>

definition test_batch ::
  "(parameters \<Rightarrow> 'x \<Rightarrow> error + real list) \<Rightarrow> ('x \<times> int) list \<Rightarrow> run_state \<times> real \<times> nat
     \<Rightarrow> error + run_state \<times> real \<times> nat" where
  "test_batch model batch = (\<lambda>(st, test_loss, correct).
     let inputs = map fst batch; target = map snd batch in
     case mapE (model (params st)) inputs of
       Inl e \<Rightarrow> Inl e
     | Inr output \<Rightarrow>
         (case nll_loss_sum output target of
            Inl e \<Rightarrow> Inl e
          | Inr l \<Rightarrow>
              (case mapE argmax output of
                 Inl e \<Rightarrow> Inl e
               | Inr pred \<Rightarrow>
                   Inr (st, test_loss + l,
                        correct + length (filter (\<lambda>(c, t). int c = t) (zip pred target))))))"

text \<open>
  \<^verbatim>\<open>with torch.no_grad()\<close> switches gradient tracking off and, on leaving the block,
  back to what it was.
\<close>

definition test ::
  "(parameters \<Rightarrow> 'x \<Rightarrow> error + real list) \<Rightarrow> device \<Rightarrow> ('x \<times> int) DataLoader
     \<Rightarrow> (('x \<times> int) list \<Rightarrow> ('x \<times> int) list) \<Rightarrow> run_state \<Rightarrow> error + run_state" where
  "test model dev test_loader perm st =
     (let st0 = st\<lparr>training := False\<rparr>;
          before = grad_enabled st0
      in case foldE (test_batch model) (batches perm test_loader)
                (st0\<lparr>grad_enabled := False\<rparr>, 0, 0) of
           Inl e \<Rightarrow> Inl e
         | Inr (st1, test_loss, correct) \<Rightarrow>
             let st2 = st1\<lparr>grad_enabled := before\<rparr>;
                 n = length (dataset test_loader)
             in if n = 0 then Inl ZeroDivisionError
                else Inr (st2\<lparr>stdout := stdout st2 @
                            [Report (test_loss / real n) correct n
                               (100 * real correct / real n)]\<rparr>))"

subsection \<open>\<^verbatim>\<open>main\<close>\<close>

text \<open>\<^verbatim>\<open>scheduler.step()\<close> writes the new rate into the optimiser.\<close>

definition scheduler_step :: "run_state \<Rightarrow> error + run_state" where
  "scheduler_step st =
     (let sch = (scheduler st)\<lparr>last_epoch := Suc (last_epoch (scheduler st))\<rparr>
      in case get_lr sch (opt_lr st) of
           Inl e \<Rightarrow> Inl e
         | Inr rate \<Rightarrow> Inr (st\<lparr>scheduler := sch, opt_lr := rate\<rparr>))"

text \<open>
  What a run finds when it starts: the two parts of the data set, the checkpoint
  files, the values a freshly constructed \<^verbatim>\<open>Model\<close> has, whether a GPU is there, and
  the orders the samplers draw in each epoch.
\<close>

record 'x environment =
  mnist_train :: "('x \<times> int) list"
  mnist_test :: "('x \<times> int) list"
  disk :: files
  fresh :: parameters
  cuda_available :: bool
  train_order :: "int \<Rightarrow> ('x \<times> int) list \<Rightarrow> ('x \<times> int) list"
  test_order :: "int \<Rightarrow> ('x \<times> int) list \<Rightarrow> ('x \<times> int) list"

text \<open>The body of the epoch loop, lines 154 to 157.\<close>

definition epoch_body ::
  "'x torch \<Rightarrow> FLAGS \<Rightarrow> (parameters \<Rightarrow> 'x \<Rightarrow> error + real list) \<Rightarrow> device \<Rightarrow> 'x environment
     \<Rightarrow> ('x \<times> int) DataLoader \<Rightarrow> ('x \<times> int) DataLoader \<Rightarrow> int \<Rightarrow> run_state
     \<Rightarrow> error + run_state" where
  "epoch_body fw flags model dev env train_loader test_loader epoch st =
     (case train fw flags model dev train_loader (train_order env epoch) (loss_fn flags) epoch
             (st\<lparr>calls := calls st @ [Call_train epoch]\<rparr>) of
        Inl e \<Rightarrow> Inl e
      | Inr (st1, tmp) \<Rightarrow>
          (let st2 = st1\<lparr>loss_values := loss_values st1 @ tmp\<rparr> in
           case test model dev test_loader (test_order env epoch)
                  (st2\<lparr>calls := calls st2 @ [Call_test]\<rparr>) of
             Inl e \<Rightarrow> Inl e
           | Inr st3 \<Rightarrow> scheduler_step (st3\<lparr>calls := calls st3 @ [Call_scheduler_step]\<rparr>)))"

text \<open>Lines 143 to 145: an empty path counts as no path.\<close>

definition restore :: "'x torch \<Rightarrow> FLAGS \<Rightarrow> files \<Rightarrow> parameters \<Rightarrow> error + parameters" where
  "restore fw flags fs p =
     (case start_checkpoint flags of
        None \<Rightarrow> Inr p
      | Some path \<Rightarrow>
          if path = [] then Inr p
          else (case torch_load (unpickle fw) fs path of
                  Inl e \<Rightarrow> Inl e
                | Inr ckpt \<Rightarrow> load_state_dict p ckpt))"

text \<open>The state in which the epoch loop starts, lines 136 to 151.\<close>

definition initial_state :: "FLAGS \<Rightarrow> parameters \<Rightarrow> files \<Rightarrow> run_state" where
  "initial_state flags p fs =
     \<lparr>params = p, training = True, grad_enabled = True, opt_lr = lr flags,
      scheduler = \<lparr>step_size = 1, gamma = 7 / 10, last_epoch = 0\<rparr>,
      loss_values = [], stdout = [], saved = fs, steps = [], calls = []\<rparr>"

text \<open>
  \<^verbatim>\<open>main\<close> up to the saving of the checkpoint (the plot that follows changes nothing
  of the state below).  \<^verbatim>\<open>optim.SGD\<close> refuses a negative rate.
\<close>

definition main ::
  "'x torch \<Rightarrow> (tensor list \<Rightarrow> 'x \<Rightarrow> error + real list) \<Rightarrow> FLAGS \<Rightarrow> 'x environment
     \<Rightarrow> error + run_state" where
  "main fw layers_0_7 flags env =
     (case new_DataLoader (mnist_train env) (train_batch_size flags) True of
        Inl e \<Rightarrow> Inl e
      | Inr train_loader \<Rightarrow>
     (case new_DataLoader (mnist_test env) (test_batch_size flags) True of
        Inl e \<Rightarrow> Inl e
      | Inr test_loader \<Rightarrow>
     if lr flags < 0 then Inl ValueError
     else
     (case restore fw flags (disk env) (fresh env) of
        Inl e \<Rightarrow> Inl e
      | Inr p \<Rightarrow>
     (case foldE (epoch_body fw flags (Model layers_0_7)
                    (if cuda_available env then CUDA else CPU) env train_loader test_loader)
             [1..epochs flags] (initial_state flags p (disk env)) of
        Inl e \<Rightarrow> Inl e
      | Inr st \<Rightarrow>
          Inr (if save_model flags
               then st\<lparr>saved := torch_save (saved st) (state_dict (params st))
                                   (save_checkpoint flags)\<rparr>
               else st)))))"

subsection \<open>The criteria on well-shaped batches, and a model without parameters\<close>

text \<open>
  The statements below hold for any framework record.  Concrete runs need one.  Here the
  two criteria are the documented ones on the inputs the script gives them: outputs and
  targets of one shape and not empty, labels inside the classes.  Elsewhere (where the
  framework broadcasts, ignores a label or returns NaN) this instance raises, and no
  statement below depends on it there.
\<close>

definition mse_loss :: "real list list \<Rightarrow> real list list \<Rightarrow> error + real" where
  "mse_loss output target =
     (if map length output \<noteq> map length target \<or> concat target = [] then Inl RuntimeError
      else Inr ((\<Sum>(v, t)\<leftarrow>zip (concat output) (concat target). (v - t)\<^sup>2)
                 / real (length (concat target))))"

definition cross_entropy :: "real list list \<Rightarrow> int list \<Rightarrow> error + real" where
  "cross_entropy output target =
     (if length output \<noteq> length target then Inl ValueError
      else if target = [] \<or> list_ex (\<lambda>(out, t). t < 0 \<or> int (length out) \<le> t) (zip output target)
      then Inl IndexError
      else Inr ((\<Sum>(out, t)\<leftarrow>zip output target. ln (\<Sum>v\<leftarrow>out. exp v) - out ! nat t)
                 / real (length target)))"

text \<open>
  A model that scores every class 0 whatever its parameters and input, and the
  framework record for it: its differentiation returns zero tensors (the gradient of a
  model that does not depend on its parameters), and a checkpoint is read back as it
  was written.
\<close>

definition constant_model :: "parameters \<Rightarrow> 'x \<Rightarrow> error + real list" where
  "constant_model p x = Inr (replicate 10 0)"

definition zeros_like :: "tensor \<Rightarrow> tensor" where
  "zeros_like t = Tensor (shape t) (map (\<lambda>_. 0) (entries t))"

definition zero_gradient :: "parameters \<Rightarrow> parameters" where
  "zero_gradient p =
     \<lparr>conv1_weight = zeros_like (conv1_weight p), conv1_bias = zeros_like (conv1_bias p),
      conv2_weight = zeros_like (conv2_weight p), conv2_bias = zeros_like (conv2_bias p),
      fc1_weight = zeros_like (fc1_weight p), fc1_bias = zeros_like (fc1_bias p),
      fc2_weight = zeros_like (fc2_weight p), fc2_bias = zeros_like (fc2_bias p)\<rparr>"

definition torch_constant :: "'x torch" where
  "torch_constant =
     \<lparr>CrossEntropyLoss = cross_entropy, MSELoss = mse_loss,
      backward = (\<lambda>model p inputs criterion. zero_gradient p), unpickle = Inr\<rparr>"

text \<open>
  The framework record for \<open>Model idle_layers\<close> (below, the network whose hidden
  activations are zero) under the mean-squared error.  The output of that network is
  its last bias, so only the last bias has a gradient.  The mean-squared error is a
  polynomial of degree two in each entry of the bias, and for such a polynomial the
  central difference with step 1 is the derivative; so \<open>bias_gradient\<close> is the gradient
  that differentiation returns.
\<close>

definition value_of :: "error + real \<Rightarrow> real" where
  "value_of r = (case r of Inl e \<Rightarrow> 0 | Inr v \<Rightarrow> v)"

definition bias_gradient :: "(real list list \<Rightarrow> error + real) \<Rightarrow> nat \<Rightarrow> real list \<Rightarrow> real list" where
  "bias_gradient criterion n b =
     map (\<lambda>j. (value_of (criterion (replicate n (b[j := b ! j + 1])))
                - value_of (criterion (replicate n (b[j := b ! j - 1])))) / 2)
       [0..<length b]"

definition torch_idle :: "'x torch" where
  "torch_idle =
     \<lparr>CrossEntropyLoss = cross_entropy, MSELoss = mse_loss,
      backward = (\<lambda>model p inputs criterion.
        (zero_gradient p)\<lparr>fc2_bias :=
           Tensor (shape (fc2_bias p))
             (bias_gradient criterion (length inputs) (entries (fc2_bias p)))\<rparr>),
      unpickle = Inr\<rparr>"

text \<open>Parameters of the shapes of \<^verbatim>\<open>Model\<close>, all zero, and the defaults of the flags.\<close>

definition zeros :: "nat list \<Rightarrow> tensor" where
  "zeros sh = Tensor sh (replicate (prod_list sh) 0)"

definition zero_parameters :: parameters where
  "zero_parameters =
     \<lparr>conv1_weight = zeros [32, 1, 3, 3], conv1_bias = zeros [32],
      conv2_weight = zeros [64, 32, 3, 3], conv2_bias = zeros [64],
      fc1_weight = zeros [128, 9216], fc1_bias = zeros [128],
      fc2_weight = zeros [10, 128], fc2_bias = zeros [10]\<rparr>"

definition default_FLAGS :: FLAGS where
  "default_FLAGS =
     \<lparr>data_dir = ''downloads'', train_batch_size = 128, test_batch_size = 10000,
      loss_fn = ''CE'', epochs = 10, lr = 1 / 10, log_interval = 100,
      start_checkpoint = None, save_model = False,
      save_checkpoint = ''downloads/mnist_cnn.pth'', loss_fig = ''downloads/loss_curve.png''\<rparr>"

text \<open>
  A small run: hidden layers that output 128 zeros (what layers 0 to 7 compute when
  their weights and biases are zero), two training examples, one test example, no
  checkpoint files, a fresh model with all parameters zero, no GPU.
\<close>

definition idle_layers :: "tensor list \<Rightarrow> 'x \<Rightarrow> error + real list" where
  "idle_layers ws x = Inr (replicate 128 0)"

definition tiny_environment :: "nat environment" where
  "tiny_environment =
     \<lparr>mnist_train = [(0, 3), (1, 7)], mnist_test = [(2, 0)], disk = Map.empty,
      fresh = zero_parameters, cuda_available = False, train_order = (\<lambda>epoch. rev), test_order = (\<lambda>epoch xs. xs)\<rparr>"

subsection \<open>What an evaluation report is measured against\<close>

text \<open>
  Read off \<open>test_batch\<close>: what one test example adds to each of the two accumulators of
  \<^verbatim>\<open>test\<close> under the parameters \<open>p\<close>, namely the term of \<^verbatim>\<open>F.nll_loss\<close> for it, and
  whether \<open>argmax\<close> of its scores equals its label.
\<close>

definition example_nll ::
  "(parameters \<Rightarrow> 'x \<Rightarrow> error + real list) \<Rightarrow> parameters \<Rightarrow> 'x \<times> int \<Rightarrow> real" where
  "example_nll model p = (\<lambda>(x, y).
     case model p x of
       Inl e \<Rightarrow> 0
     | Inr out \<Rightarrow> (case nll_one out y of Inl e \<Rightarrow> 0 | Inr v \<Rightarrow> v))"

definition top1_correct ::
  "(parameters \<Rightarrow> 'x \<Rightarrow> error + real list) \<Rightarrow> parameters \<Rightarrow> 'x \<times> int \<Rightarrow> bool" where
  "top1_correct model p = (\<lambda>(x, y).
     case model p x of
       Inl e \<Rightarrow> False
     | Inr out \<Rightarrow> (case argmax out of Inl e \<Rightarrow> False | Inr c \<Rightarrow> int c = y))"

text \<open>
  From the words of the specification, and written without the functions above: the
  index of the maximum score (the first one where several scores are maximal); the
  negative log-likelihood of a label under the scores, which is minus the logarithm of
  the probability the softmax of the scores gives the label; and the two figures a
  report is to show, the number of examples whose label is the index of the maximum
  score, and the mean negative log-likelihood.
\<close>

definition top1 :: "real list \<Rightarrow> nat" where
  "top1 out = length (takeWhile (\<lambda>v. v < Max (set out)) out)"

definition negative_log_likelihood :: "real list \<Rightarrow> int \<Rightarrow> real" where
  "negative_log_likelihood out y = ln (\<Sum>v\<leftarrow>out. exp v) - out ! nat y"

definition correct_count ::
  "(parameters \<Rightarrow> 'x \<Rightarrow> error + real list) \<Rightarrow> parameters \<Rightarrow> ('x \<times> int) list \<Rightarrow> nat" where
  "correct_count model p ds =
     length (filter (\<lambda>(x, y). case model p x of
                                  Inl e \<Rightarrow> False
                                | Inr out \<Rightarrow> out \<noteq> [] \<and> int (top1 out) = y) ds)"

definition mean_nll ::
  "(parameters \<Rightarrow> 'x \<Rightarrow> error + real list) \<Rightarrow> parameters \<Rightarrow> ('x \<times> int) list \<Rightarrow> real" where
  "mean_nll model p ds =
     (\<Sum>(x, y)\<leftarrow>ds. case model p x of
                      Inl e \<Rightarrow> 0
                    | Inr out \<Rightarrow> negative_log_likelihood out y) / real (length ds)"

section \<open>Properties\<close>

subsection \<open>Loops\<close>

lemma foldE_preserves:
  assumes "foldE f xs s = Inr s'" and "P s"
    and "\<And>x a b. f x a = Inr b \<Longrightarrow> P a \<Longrightarrow> P b"
  shows "P s'"
  using assms(1,2)
proof (induction xs arbitrary: s)
  case Nil
  then show ?case by simp
next
  case (Cons x xs)
  from Cons.prems(1) obtain s1 where 1: "f x s = Inr s1" and 2: "foldE f xs s1 = Inr s'"
    by (auto split: sum.splits)
  have "P s1" using assms(3)[OF 1 Cons.prems(2)] .
  then show ?case using Cons.IH[OF 2] by simp
qed

lemma mapE_Inr: "mapE f xs = Inr ys \<Longrightarrow> map f xs = map Inr ys"
  by (induction xs arbitrary: ys) (auto split: sum.splits)

lemma mapE_length: "mapE f xs = Inr ys \<Longrightarrow> length ys = length xs"
  by (induction xs arbitrary: ys) (auto split: sum.splits)

subsection \<open>Batches\<close>

lemma concat_chunks: "0 < n \<Longrightarrow> concat (chunks n xs) = xs"
proof (induction n xs rule: chunks.induct)
  case (1 n xs)
  show ?case
  proof (cases "xs = []")
    case True
    then show ?thesis by (simp add: chunks.simps)
  next
    case False
    with 1 show ?thesis by (subst chunks.simps) simp
  qed
qed

lemma one_chunk_arith: "0 < m \<Longrightarrow> m \<le> n \<Longrightarrow> (m + n - 1) div n = (1::nat)"
  by (rule div_nat_eqI) auto

lemma length_chunks: "0 < n \<Longrightarrow> length (chunks n xs) = (length xs + n - 1) div n"
proof (induction n xs rule: chunks.induct)
  case (1 n xs)
  show ?case
  proof (cases "xs = []")
    case True
    then show ?thesis using 1(2) by (simp add: chunks.simps)
  next
    case False
    then have len: "0 < length xs" by simp
    have IH: "length (chunks n (drop n xs)) = (length (drop n xs) + n - 1) div n"
      using 1 False by simp
    show ?thesis
    proof (cases "length xs \<le> n")
      case True
      have "(length xs + n - 1) div n = 1"
        using len True by (rule one_chunk_arith)
      moreover have "length (chunks n xs) = 1"
        using True False 1(2) by (subst chunks.simps) (simp add: chunks.simps)
      ultimately show ?thesis by simp
    next
      case F2: False
      have e: "length xs + n - 1 = (length xs - 1) + n"
        using len by linarith
      have d: "length (drop n xs) + n - 1 = length xs - 1"
        using F2 unfolding length_drop by linarith
      have "(length xs + n - 1) div n = Suc ((length xs - 1) div n)"
        unfolding e using 1(2) div_add_self2[of n "length xs - 1"] by linarith
      moreover have "length (chunks n xs) = Suc (length (chunks n (drop n xs)))"
        using False 1(2) by (subst chunks.simps) simp
      ultimately show ?thesis using IH d by (simp only:)
    qed
  qed
qed

lemma ceil_div:
  assumes "0 < n"
  shows "(m + n - 1) div n = nat \<lceil>real m / real n\<rceil>"
proof -
  define q where "q = (m + n - 1) div n"
  have 1: "q * n \<le> m + n - 1" unfolding q_def by simp
  have 2: "m + n - 1 < n + q * n" unfolding q_def using assms by (rule dividend_less_div_times)
  have a: "m \<le> q * n" using 2 assms by linarith
  have b: "q * n < m + n" using 1 assms by linarith
  have "real m \<le> real (q * n)" using a of_nat_le_iff by blast
  then have le: "real m / real n \<le> real q" using assms by (simp add: pos_divide_le_eq)
  have "real (q * n) < real (m + n)" using b of_nat_less_iff by blast
  then have "real q * real n - real n < real m" by simp
  then have "(real q - 1) * real n < real m" by (simp add: algebra_simps)
  then have lt: "real q - 1 < real m / real n" using assms by (simp add: pos_less_divide_eq)
  have "\<lceil>real m / real n\<rceil> = int q"
    by (rule ceiling_unique) (use le lt in simp_all)
  then show ?thesis unfolding q_def by simp
qed

lemma length_batches:
  assumes "0 < batch_size loader" and "mset (perm (dataset loader)) = mset (dataset loader)"
  shows "length (batches perm loader)
           = nat \<lceil>real (length (dataset loader)) / real (batch_size loader)\<rceil>"
proof -
  have "length (perm (dataset loader)) = length (dataset loader)"
    using assms(2) by (rule mset_eq_length)
  then show ?thesis
    using assms(1) ceil_div[OF assms(1), of "length (dataset loader)"]
    by (simp add: batches_def length_chunks)
qed

subsection \<open>The one-hot targets\<close>

lemma one_hot_row:
  "map (\<lambda>j. if int j = l then (1::real) else 0) [0..<10] =
     (if 0 \<le> l \<and> l \<le> 9 then (replicate 10 0)[nat l := 1] else replicate 10 0)"
  by (auto simp: list_eq_iff_nth_eq nth_list_update)

lemma one_hot_rows:
  "one_hot y =
     map (\<lambda>l. if 0 \<le> l \<and> l \<le> 9 then (replicate 10 0)[nat l := 1] else replicate 10 0) y"
  unfolding one_hot_def by (simp add: one_hot_row)

text \<open>
  C10.  In the branch of \<^verbatim>\<open>train\<close> that is not cross-entropy, the criterion is the
  mean-squared error against the one-hot targets, and the one-hot row of a label \<open>l\<close>
  has ten entries: all 0 but a 1 at position \<open>l\<close> when \<open>0 \<le> l \<le> 9\<close>, all 0 for any
  other label.  The encoding is a total function: no label makes it raise.  (The branch
  is stated for a run on the CPU.)
\<close>

theorem one_hot_ten_classes:
  "one_hot y =
     map (\<lambda>l. if 0 \<le> l \<and> l \<le> 9 then (replicate 10 0)[nat l := 1] else replicate 10 0) y
   \<and> select_loss fw CPU ''MSE'' y = Inr (\<lambda>output. MSELoss fw output (one_hot y))"
  unfolding one_hot_def select_loss_def by (simp add: one_hot_row)



subsection \<open>The training pass\<close>

lemma train_batch_Inr:
  assumes "train_batch fw flags model dev loader loss epoch (k, b) (st, tmp) = Inr (st1, tmp1)"
  shows "\<exists>l. steps st1 = steps st @ [l] \<and> log_interval flags \<noteq> 0
           \<and> tmp1 = tmp @ (if log_interval flags dvd int k then [l] else [])
           \<and> stdout st1 = stdout st @
                (if log_interval flags dvd int k
                 then [Progress epoch (k * length b) (length (dataset loader))
                         (100 * real k / real (len_loader loader)) l]
                 else [])"
  using assms
  by (auto simp: train_batch_def Let_def dvd_eq_mod_eq_0 split: sum.splits if_splits)

lemma train_batch_frame:
  assumes "train_batch fw flags model dev loader loss epoch ib (st, tmp) = Inr (st1, tmp1)"
  shows "opt_lr st1 = opt_lr st \<and> scheduler st1 = scheduler st \<and> calls st1 = calls st
           \<and> loss_values st1 = loss_values st \<and> saved st1 = saved st
           \<and> training st1 = training st \<and> grad_enabled st1 = grad_enabled st"
  using assms
  by (cases ib) (auto simp: train_batch_def Let_def split: sum.splits if_splits)

lemma train_loop:
  "foldE (train_batch fw flags model dev loader loss epoch) (enumerate k bs) (st, tmp) = Inr (st', tmp')
   \<Longrightarrow> \<exists>ls. length ls = length bs \<and> steps st' = steps st @ ls
         \<and> tmp' = tmp @ map snd (filter (\<lambda>(i, l). log_interval flags dvd int i) (enumerate k ls))
         \<and> stdout st' = stdout st @
              map (\<lambda>(i, b, l). Progress epoch (i * length b) (length (dataset loader))
                     (100 * real i / real (len_loader loader)) l)
                (filter (\<lambda>(i, b, l). log_interval flags dvd int i) (enumerate k (zip bs ls)))"
proof (induction bs arbitrary: k st tmp)
  case Nil
  then show ?case by simp
next
  case (Cons b bs)
  from Cons.prems obtain st1 tmp1 where
    1: "train_batch fw flags model dev loader loss epoch (k, b) (st, tmp) = Inr (st1, tmp1)" and
    2: "foldE (train_batch fw flags model dev loader loss epoch) (enumerate (Suc k) bs) (st1, tmp1) = Inr (st', tmp')"
    by (auto simp: enumerate_eq_zip upt_conv_Cons split: sum.splits simp del: upt_Suc)
  from train_batch_Inr[OF 1] obtain l where l:
    "steps st1 = steps st @ [l]"
    "tmp1 = tmp @ (if log_interval flags dvd int k then [l] else [])"
    "stdout st1 = stdout st @
                (if log_interval flags dvd int k
                 then [Progress epoch (k * length b) (length (dataset loader))
                         (100 * real k / real (len_loader loader)) l]
                 else [])" by blast
  from Cons.IH[OF 2] obtain ls where ls:
    "length ls = length bs" "steps st' = steps st1 @ ls"
    "tmp' = tmp1 @ map snd (filter (\<lambda>(i, l). log_interval flags dvd int i) (enumerate (Suc k) ls))"
    "stdout st' = stdout st1 @
              map (\<lambda>(i, b, l). Progress epoch (i * length b) (length (dataset loader))
                     (100 * real i / real (len_loader loader)) l)
                (filter (\<lambda>(i, b, l). log_interval flags dvd int i) (enumerate (Suc k) (zip bs ls)))"
    by blast
  show ?case
    by (rule exI[of _ "l # ls"]) (use l ls in \<open>simp add: split_def\<close>)
qed

lemma filter_enumerate_small:
  assumes "int (length xs) < m"
  shows "filter (\<lambda>p. m dvd int (fst p)) (enumerate 0 xs) = take 1 (enumerate 0 xs)"
proof (cases xs)
  case Nil
  then show ?thesis by simp
next
  case (Cons x ys)
  have "\<not> m dvd int (fst p)" if "p \<in> set (enumerate (Suc 0) ys)" for p
  proof -
    from that have "0 < int (fst p)" "int (fst p) < m"
      using assms Cons by (auto simp: in_set_enumerate_eq)
    then show ?thesis by (rule zdvd_not_zless)
  qed
  then have "filter (\<lambda>p. m dvd int (fst p)) (enumerate (Suc 0) ys) = []"
    by (simp add: filter_empty_conv)
  then show ?thesis using Cons by simp
qed

text \<open>
  C5.  A training pass that returns took one optimiser step per batch, that is
  \<open>\<lceil>N / B\<rceil>\<close> steps for \<open>N\<close> examples in batches of \<open>B\<close>.  With \<open>ls\<close> the losses of
  these steps in order, the returned sequence holds exactly the \<open>ls ! i\<close> whose index
  \<open>i\<close> is a multiple of \<open>log_interval\<close>, and one progress line was printed for each of
  these batches and for no other.  When \<open>log_interval\<close> exceeds the number of batches,
  only batch 0 is logged.
\<close>

theorem train_logs_every_log_interval:
  assumes "train fw flags model dev loader perm loss epoch st = Inr (st', tmp_loss)"
    and "0 < batch_size loader"
    and "mset (perm (dataset loader)) = mset (dataset loader)"
  shows "let ls = drop (length (steps st)) (steps st');
             bs = batches perm loader;
             n = nat \<lceil>real (length (dataset loader)) / real (batch_size loader)\<rceil>
         in steps st' = steps st @ ls \<and> length ls = n \<and> length bs = n
            \<and> tmp_loss = map snd (filter (\<lambda>(i, l). log_interval flags dvd int i) (enumerate 0 ls))
            \<and> stdout st' = stdout st @
                 map (\<lambda>(i, b, l). Progress epoch (i * length b) (length (dataset loader))
                        (100 * real i / real (len_loader loader)) l)
                   (filter (\<lambda>(i, b, l). log_interval flags dvd int i) (enumerate 0 (zip bs ls)))
            \<and> (int n < log_interval flags \<longrightarrow>
                 tmp_loss = take 1 ls
                 \<and> stdout st' = stdout st @
                      map (Progress epoch 0 (length (dataset loader)) 0) (take 1 ls))"
proof -
  define bs where "bs = batches perm loader"
  define n where "n = nat \<lceil>real (length (dataset loader)) / real (batch_size loader)\<rceil>"
  have nb: "length bs = n"
    unfolding bs_def n_def using assms(2,3) by (rule length_batches)
  from assms(1) obtain ls where ls:
    "length ls = length bs" "steps st' = steps st @ ls"
    "tmp_loss = map snd (filter (\<lambda>(i, l). log_interval flags dvd int i) (enumerate 0 ls))"
    "stdout st' = stdout st @
              map (\<lambda>(i, b, l). Progress epoch (i * length b) (length (dataset loader))
                     (100 * real i / real (len_loader loader)) l)
                (filter (\<lambda>(i, b, l). log_interval flags dvd int i) (enumerate 0 (zip bs ls)))"
    unfolding train_def bs_def[symmetric]
    using train_loop[of fw flags model dev loader loss epoch 0 bs "st\<lparr>training := True\<rparr>" "[]" st' tmp_loss]
    by auto
  have dr: "drop (length (steps st)) (steps st') = ls" using ls(2) by simp
  have small: "tmp_loss = take 1 ls \<and> stdout st' = stdout st @
                      map (Progress epoch 0 (length (dataset loader)) 0) (take 1 ls)"
    if "int n < log_interval flags"
  proof -
    have a: "int (length ls) < log_interval flags" using that nb ls(1) by simp
    have b: "int (length (zip bs ls)) < log_interval flags" using that nb ls(1) by simp
    have "tmp_loss = map snd (take 1 (enumerate 0 ls))"
      using ls(3) filter_enumerate_small[OF a] by (simp add: split_def)
    then have 1: "tmp_loss = take 1 ls" by (cases ls) simp_all
    have "stdout st' = stdout st @
              map (\<lambda>(i, b, l). Progress epoch (i * length b) (length (dataset loader))
                     (100 * real i / real (len_loader loader)) l)
                (take 1 (enumerate 0 (zip bs ls)))"
      using ls(4) filter_enumerate_small[OF b] by (simp add: split_def)
    then have 2: "stdout st' = stdout st @
                      map (Progress epoch 0 (length (dataset loader)) 0) (take 1 ls)"
      using ls(1) by (cases ls; cases bs) simp_all
    show ?thesis using 1 2 by simp
  qed
  show ?thesis
    unfolding Let_def dr bs_def[symmetric] n_def[symmetric]
    using ls nb small by simp
qed



lemma replicate_10: "replicate 10 x = [x, x, x, x, x, x, x, x, x, x]"
  by (simp add: numeral_eq_Suc)

theorem train_logs_every_log_interval_witness:
  "\<exists>st' tmp_loss.
     train torch_constant default_FLAGS constant_model CPU
       \<lparr>dataset = [(0::nat, 3), (1, 7)], batch_size = 128, shuffle = True\<rparr> rev ''MSE'' 1
       (initial_state default_FLAGS zero_parameters Map.empty) = Inr (st', tmp_loss)
     \<and> mset (rev [(0::nat, 3::int), (1, 7)]) = mset [(0, 3), (1, 7)]
     \<and> int (nat \<lceil>real (length [(0::nat, 3::int), (1, 7)]) / real (128::nat)\<rceil>)
           < log_interval default_FLAGS
     \<and> tmp_loss = [1 / 10] \<and> steps st' = [1 / 10] \<and> stdout st' = [Progress 1 0 2 0 (1 / 10)]"
proof -
  let ?loader = "\<lparr>dataset = [(0::nat, 3::int), (1, 7)], batch_size = 128, shuffle = True\<rparr>"
  let ?st = "initial_state default_FLAGS zero_parameters Map.empty"
  have "\<exists>st' tmp. train torch_constant default_FLAGS constant_model CPU ?loader rev ''MSE'' 1 ?st
          = Inr (st', tmp) \<and> steps st' = [1 / 10]"
    by (simp add: train_def batches_def chunks.simps enumerate_eq_zip train_batch_def
      constant_model_def select_loss_def torch_constant_def mse_loss_def one_hot_def
      default_FLAGS_def initial_state_def Let_def upt_conv_Cons power2_eq_square replicate_10)
  then obtain st' tmp where run:
    "train torch_constant default_FLAGS constant_model CPU ?loader rev ''MSE'' 1 ?st = Inr (st', tmp)"
    and s: "steps st' = [1 / 10]"
    by blast
  have b: "0 < batch_size ?loader" by simp
  have m: "mset (rev (dataset ?loader)) = mset (dataset ?loader)" by simp
  have "\<lceil>(1::real) / 64\<rceil> = 1"
    by (rule ceiling_unique) simp_all
  then have n: "nat \<lceil>(1::real) / 64\<rceil> = Suc 0"
    by simp
  have "tmp = [1 / 10] \<and> stdout st' = [Progress 1 0 2 0 (1 / 10)]"
    using train_logs_every_log_interval[OF run b m] s n
    by (simp add: Let_def initial_state_def default_FLAGS_def numeral_2_eq_2 batches_def
        chunks.simps enumerate_eq_zip len_loader_def)
  then show ?thesis using run s n by (simp add: default_FLAGS_def)
qed

subsection \<open>The evaluation pass\<close>

lemma first_max_bound: "xs \<noteq> [] \<Longrightarrow> first_max xs < length xs"
  by (induction xs rule: first_max.induct) (auto simp: Let_def)

lemma first_max_greatest:
  "i < length xs \<Longrightarrow> xs ! i \<le> xs ! first_max xs"
proof (induction xs arbitrary: i rule: first_max.induct)
  case 1
  then show ?case by simp
next
  case (2 x)
  then show ?case by simp
next
  case (3 x y ys)
  show ?case
  proof (cases i)
    case 0
    then show ?thesis by (auto simp: Let_def)
  next
    case (Suc k)
    then have "(y # ys) ! k \<le> (y # ys) ! first_max (y # ys)"
      using 3 by simp
    then show ?thesis using Suc by (auto simp: Let_def)
  qed
qed

lemma first_max_first:
  "i < first_max xs \<Longrightarrow> xs ! i < xs ! first_max xs"
proof (induction xs arbitrary: i rule: first_max.induct)
  case 1
  then show ?case by simp
next
  case (2 x)
  then show ?case by simp
next
  case (3 x y ys)
  show ?case
  proof (cases i)
    case 0
    then show ?thesis using 3(2) by (auto simp: Let_def split: if_splits)
  next
    case (Suc k)
    then have "k < first_max (y # ys)" using 3(2) by (auto simp: Let_def split: if_splits)
    then have "(y # ys) ! k < (y # ys) ! first_max (y # ys)" using 3(1) by simp
    then show ?thesis using Suc 3(2) by (auto simp: Let_def split: if_splits)
  qed
qed

lemma argmax_is_maximum:
  assumes "argmax out = Inr c"
  shows "c < length out \<and> (\<forall>i<length out. out ! i \<le> out ! c) \<and> (\<forall>i<c. out ! i < out ! c)"
  using assms first_max_bound[of out] first_max_greatest[of _ out] first_max_first[of _ out]
  by (auto simp: argmax_def split: if_splits)

lemma first_max_is_Max:
  assumes "xs \<noteq> []"
  shows "xs ! first_max xs = Max (set xs)"
proof (rule Max_eqI[symmetric])
  show "finite (set xs)" by simp
  show "xs ! first_max xs \<in> set xs" using first_max_bound[OF assms] by simp
  fix y assume "y \<in> set xs"
  then obtain i where "i < length xs" "xs ! i = y" by (auto simp: in_set_conv_nth)
  then show "y \<le> xs ! first_max xs" using first_max_greatest[of i xs] by simp
qed

lemma first_max_eq_top1: "xs \<noteq> [] \<Longrightarrow> first_max xs = top1 xs"
proof (induction xs rule: first_max.induct)
  case 1
  then show ?case by simp
next
  case (2 x)
  then show ?case by (simp add: top1_def)
next
  case (3 x y ys)
  let ?r = "y # ys"
  have m: "?r ! first_max ?r = Max (set ?r)" by (rule first_max_is_Max) simp
  have ih: "first_max ?r = top1 ?r" using 3 by simp
  have M: "Max (set (x # ?r)) = max x (Max (set ?r))" by simp
  show ?case
  proof (cases "x < Max (set ?r)")
    case True
    then have "Max (set (x # ?r)) = Max (set ?r)" unfolding M by simp
    then have "top1 (x # ?r) = Suc (top1 ?r)" using True unfolding top1_def by simp
    moreover have "first_max (x # ?r) = Suc (first_max ?r)" using True m by (simp add: Let_def)
    ultimately show ?thesis using ih by simp
  next
    case False
    then have "Max (set (x # ?r)) = x" unfolding M by simp
    then have "top1 (x # ?r) = 0" unfolding top1_def by simp
    moreover have "first_max (x # ?r) = 0" using False m by (simp add: Let_def)
    ultimately show ?thesis by simp
  qed
qed

lemma top1_correct_iff:
  "top1_correct model p = (\<lambda>(x, y). case model p x of
                                  Inl e \<Rightarrow> False
                                | Inr out \<Rightarrow> out \<noteq> [] \<and> int (top1 out) = y)"
  by (auto simp: top1_correct_def argmax_def first_max_eq_top1 fun_eq_iff split: sum.splits)

lemma batch_nll:
  "mapE (model p) (map fst b) = Inr scores
   \<Longrightarrow> mapE (\<lambda>(out, t). nll_one out t) (zip scores (map snd b)) = Inr ls
   \<Longrightarrow> sum_list ls = (\<Sum>e\<leftarrow>b. example_nll model p e)"
proof (induction b arbitrary: scores ls)
  case Nil
  then show ?case by simp
next
  case (Cons e b)
  obtain x y where e: "e = (x, y)" by (cases e)
  from Cons.prems(1) e obtain out outs where
    o: "model p x = Inr out" "mapE (model p) (map fst b) = Inr outs" "scores = out # outs"
    by (auto split: sum.splits)
  from Cons.prems(2) e o(3) obtain v vs where
    v: "nll_one out y = Inr v" "mapE (\<lambda>(out, t). nll_one out t) (zip outs (map snd b)) = Inr vs"
       "ls = v # vs"
    by (auto split: sum.splits)
  have "example_nll model p e = v" using e o(1) v(1) by (simp add: example_nll_def)
  then show ?case using Cons.IH[OF o(2) v(2)] v(3) by simp
qed

lemma batch_correct:
  "mapE (model p) (map fst b) = Inr scores
   \<Longrightarrow> mapE argmax scores = Inr pred
   \<Longrightarrow> length (filter (\<lambda>(c, t). int c = t) (zip pred (map snd b)))
       = length (filter (top1_correct model p) b)"
proof (induction b arbitrary: scores pred)
  case Nil
  then show ?case by simp
next
  case (Cons e b)
  obtain x y where e: "e = (x, y)" by (cases e)
  from Cons.prems(1) e obtain out outs where
    o: "model p x = Inr out" "mapE (model p) (map fst b) = Inr outs" "scores = out # outs"
    by (auto split: sum.splits)
  from Cons.prems(2) o(3) obtain c cs where
    c: "argmax out = Inr c" "mapE argmax outs = Inr cs" "pred = c # cs"
    by (auto split: sum.splits)
  have "top1_correct model p e = (int c = y)" using e o(1) c(1) by (simp add: top1_correct_def)
  then show ?case using Cons.IH[OF o(2) c(2)] c(3) e by simp
qed

lemma test_batch_Inr:
  assumes "test_batch model b (st, a, c) = Inr (st1, a1, c1)"
  shows "st1 = st \<and> a1 = a + (\<Sum>e\<leftarrow>b. example_nll model (params st) e)
         \<and> c1 = c + length (filter (top1_correct model (params st)) b)"
proof -
  from assms obtain scores l pred where
    o: "mapE (model (params st)) (map fst b) = Inr scores" and
    l: "nll_loss_sum scores (map snd b) = Inr l" and
    p: "mapE argmax scores = Inr pred" and
    r: "st1 = st" "a1 = a + l"
       "c1 = c + length (filter (\<lambda>(c, t). int c = t) (zip pred (map snd b)))"
    by (auto simp: test_batch_def Let_def split: sum.splits)
  from l obtain ls where
    ls: "mapE (\<lambda>(out, t). nll_one out t) (zip scores (map snd b)) = Inr ls" "l = sum_list ls"
    by (auto simp: nll_loss_sum_def split: if_splits sum.splits)
  show ?thesis
    using r batch_nll[of model "params st" b scores ls, OF o ls(1)]
      batch_correct[of model "params st" b scores pred, OF o p] ls(2) by simp
qed

lemma test_loop:
  "foldE (test_batch model) bs (st, a, c) = Inr (st', a', c')
   \<Longrightarrow> st' = st \<and> a' = a + (\<Sum>e\<leftarrow>concat bs. example_nll model (params st) e)
       \<and> c' = c + length (filter (top1_correct model (params st)) (concat bs))"
proof (induction bs arbitrary: a c)
  case Nil
  then show ?case by simp
next
  case (Cons b bs)
  from Cons.prems obtain st1 a1 c1 where
    1: "test_batch model b (st, a, c) = Inr (st1, a1, c1)" and
    2: "foldE (test_batch model) bs (st1, a1, c1) = Inr (st', a', c')"
    by (auto split: sum.splits)
  from test_batch_Inr[OF 1] have s: "st1 = st"
    "a1 = a + (\<Sum>e\<leftarrow>b. example_nll model (params st) e)"
    "c1 = c + length (filter (top1_correct model (params st)) b)" by simp_all
  from Cons.IH[OF 2[unfolded s(1)]] show ?case using s(2,3) by simp
qed

lemma test_Inr:
  assumes "test model dev loader perm st = Inr st'"
  shows "length (dataset loader) \<noteq> 0
    \<and> st' = st\<lparr>training := False, stdout := stdout st @
         [Report ((\<Sum>e\<leftarrow>concat (batches perm loader). example_nll model (params st) e)
                    / real (length (dataset loader)))
            (length (filter (top1_correct model (params st)) (concat (batches perm loader))))
            (length (dataset loader))
            (100 * real (length (filter (top1_correct model (params st))
                                   (concat (batches perm loader))))
               / real (length (dataset loader)))]\<rparr>"
proof -
  from assms obtain st1 a c where
    f: "foldE (test_batch model) (batches perm loader)
          (st\<lparr>training := False, grad_enabled := False\<rparr>, 0, 0) = Inr (st1, a, c)"
    by (auto simp: test_def Let_def split: sum.splits prod.splits if_splits)
  from test_loop[OF f] have
    r: "st1 = st\<lparr>training := False, grad_enabled := False\<rparr>"
       "a = (\<Sum>e\<leftarrow>concat (batches perm loader). example_nll model (params st) e)"
       "c = length (filter (top1_correct model (params st)) (concat (batches perm loader)))"
    by simp_all
  show ?thesis
    using assms f r
    by (auto simp: test_def Let_def split: if_splits)
qed

lemma sum_list_mset_cong:
  fixes f :: "'a \<Rightarrow> real"
  assumes "mset xs = mset ys"
  shows "sum_list (map f xs) = sum_list (map f ys)"
proof -
  have "sum_list (map f xs) = sum_mset (image_mset f (mset xs))"
    by (simp add: sum_mset_sum_list[symmetric])
  also have "\<dots> = sum_mset (image_mset f (mset ys))" using assms by simp
  also have "\<dots> = sum_list (map f ys)" by (simp add: sum_mset_sum_list[symmetric])
  finally show ?thesis .
qed

lemma length_filter_mset_cong:
  assumes "mset xs = mset ys"
  shows "length (filter P xs) = length (filter P ys)"
proof -
  have "mset (filter P xs) = mset (filter P ys)" using assms by (metis mset_filter)
  then show ?thesis by (rule mset_eq_length)
qed

lemma concat_batches:
  assumes "0 < batch_size loader" and "mset (perm (dataset loader)) = mset (dataset loader)"
  shows "mset (concat (batches perm loader)) = mset (dataset loader)"
  using assms by (simp add: batches_def concat_chunks)

lemma test_run_example:
  "\<exists>st'. test (\<lambda>p x. Inr x) CPU
           \<lparr>dataset = [([1 / 2, 2, 1], 1), ([3, 0, 0], 2)], batch_size = 10000, shuffle = True\<rparr>
           rev (initial_state default_FLAGS zero_parameters Map.empty) = Inr st'"
  by (simp add: test_def batches_def chunks.simps test_batch_def nll_loss_sum_def nll_one_def
      ignore_index_def argmax_def initial_state_def Let_def)

lemma test_report_sums:
  assumes "test model dev loader perm st = Inr st'"
    and "0 < batch_size loader"
    and "mset (perm (dataset loader)) = mset (dataset loader)"
  shows "stdout st' = stdout st @
           [Report ((\<Sum>e\<leftarrow>dataset loader. example_nll model (params st) e)
                      / real (length (dataset loader)))
              (length (filter (top1_correct model (params st)) (dataset loader)))
              (length (dataset loader))
              (100 * (real (length (filter (top1_correct model (params st)) (dataset loader)))
                       / real (length (dataset loader))))]
         \<and> 0 < length (dataset loader)"
proof -
  note m = concat_batches[of loader perm, OF assms(2,3)]
  have 1: "(\<Sum>e\<leftarrow>concat (batches perm loader). example_nll model (params st) e)
         = (\<Sum>e\<leftarrow>dataset loader. example_nll model (params st) e)"
    using m by (rule sum_list_mset_cong)
  have 2: "length (filter (top1_correct model (params st)) (concat (batches perm loader)))
         = length (filter (top1_correct model (params st)) (dataset loader))"
    using m by (rule length_filter_mset_cong)
  show ?thesis using test_Inr[OF assms(1)] unfolding 1 2 by simp
qed

lemma test_report_accuracy:
  assumes "test model dev loader perm st = Inr st'"
    and "0 < batch_size loader"
    and "mset (perm (dataset loader)) = mset (dataset loader)"
  shows "\<exists>l. stdout st' = stdout st @
           [Report l (correct_count model (params st) (dataset loader)) (length (dataset loader))
              (100 * (real (correct_count model (params st) (dataset loader))
                       / real (length (dataset loader))))]
         \<and> 0 < length (dataset loader)"
  using test_report_sums[OF assms]
  by (simp add: correct_count_def top1_correct_iff)

text \<open>
  C9.  An evaluation pass that returns leaves every parameter as it was, takes no
  optimiser step, and restores gradient tracking to what it was before the pass: of the
  whole state only the mode flag of the model and the printed lines differ.
\<close>

theorem test_leaves_parameters:
  assumes "test model dev loader perm st = Inr st'"
  shows "params st' = params st \<and> grad_enabled st' = grad_enabled st \<and> steps st' = steps st
         \<and> opt_lr st' = opt_lr st \<and> st' = st\<lparr>training := False, stdout := stdout st'\<rparr>"
  using test_Inr[OF assms] by simp

theorem test_leaves_parameters_witness:
  "\<exists>st'. test (\<lambda>p x. Inr x) CPU
           \<lparr>dataset = [([1 / 2, 2, 1], 1), ([3, 0, 0], 2)], batch_size = 10000, shuffle = True\<rparr>
           rev (initial_state default_FLAGS zero_parameters Map.empty) = Inr st'
     \<and> params st' = zero_parameters \<and> grad_enabled st' \<and> steps st' = []
     \<and> opt_lr st' = 1 / 10"
proof -
  let ?loader = "\<lparr>dataset = [([1 / 2, 2, 1 :: real], 1 :: int), ([3, 0, 0], 2)],
                   batch_size = 10000, shuffle = True\<rparr>"
  let ?st = "initial_state default_FLAGS zero_parameters Map.empty"
  from test_run_example obtain st' where run: "test (\<lambda>p x. Inr x) CPU ?loader rev ?st = Inr st'"
    by blast
  have "params st' = zero_parameters \<and> grad_enabled st' \<and> steps st' = [] \<and> opt_lr st' = 1 / 10"
    using test_leaves_parameters[OF run]
    by (simp add: initial_state_def default_FLAGS_def)
  then show ?thesis using run by simp
qed

subsection \<open>The epoch loop\<close>

lemma shape_sgd_tensor: "shape (sgd_tensor rate w g) = shape w"
  by (simp add: sgd_tensor_def)

lemma topology_SGD_step: "topology (SGD_step rate p g) = topology p"
  by (simp add: topology_def state_dict_def SGD_step_def shape_sgd_tensor)

lemma train_batch_topology:
  assumes "train_batch fw flags model dev loader loss epoch ib (st, tmp) = Inr (st1, tmp1)"
  shows "topology (params st1) = topology (params st)"
  using assms
  by (cases ib) (auto simp: train_batch_def Let_def topology_SGD_step split: sum.splits if_splits)

lemma train_frame:
  assumes "train fw flags model dev loader perm loss epoch st = Inr (st', tmp)"
  shows "opt_lr st' = opt_lr st \<and> scheduler st' = scheduler st \<and> calls st' = calls st
           \<and> loss_values st' = loss_values st \<and> saved st' = saved st
           \<and> grad_enabled st' = grad_enabled st
           \<and> topology (params st') = topology (params st)"
proof -
  let ?P = "\<lambda>s. opt_lr (fst s) = opt_lr st \<and> scheduler (fst s) = scheduler st
              \<and> calls (fst s) = calls st \<and> loss_values (fst s) = loss_values st
              \<and> saved (fst s) = saved st \<and> grad_enabled (fst s) = grad_enabled st
              \<and> topology (params (fst s)) = topology (params st)"
  have "?P (st', tmp)"
  proof (rule foldE_preserves[OF assms[unfolded train_def], of ?P])
    show "?P (st\<lparr>training := True\<rparr>, [])" by simp
  next
    fix x a b
    assume "train_batch fw flags model dev loader loss epoch x a = Inr b" and "?P a"
    then show "?P b"
      using train_batch_frame[of fw flags model dev loader loss epoch x "fst a" "snd a" "fst b" "snd b"]
        train_batch_topology[of fw flags model dev loader loss epoch x "fst a" "snd a" "fst b" "snd b"]
      by simp
  qed
  then show ?thesis by simp
qed

lemma scheduler_step_Inr:
  assumes "scheduler_step st = Inr st'" and "step_size (scheduler st) = 1"
  shows "st' = st\<lparr>scheduler := (scheduler st)\<lparr>last_epoch := Suc (last_epoch (scheduler st))\<rparr>,
                  opt_lr := opt_lr st * gamma (scheduler st)\<rparr>"
  using assms by (auto simp: scheduler_step_def get_lr_def Let_def split: sum.splits if_splits)

lemma epoch_body_Inr:
  assumes "epoch_body fw flags model dev env train_loader test_loader epoch st = Inr st'"
    and "step_size (scheduler st) = 1"
  shows "calls st' = calls st @ [Call_train epoch, Call_test, Call_scheduler_step]
         \<and> opt_lr st' = opt_lr st * gamma (scheduler st)
         \<and> step_size (scheduler st') = 1 \<and> gamma (scheduler st') = gamma (scheduler st)
         \<and> last_epoch (scheduler st') = Suc (last_epoch (scheduler st))
         \<and> saved st' = saved st
         \<and> topology (params st') = topology (params st)"
proof -
  from assms(1) obtain st1 tmp st3 where
    t: "train fw flags model dev train_loader (train_order env epoch) (loss_fn flags) epoch
          (st\<lparr>calls := calls st @ [Call_train epoch]\<rparr>) = Inr (st1, tmp)" and
    e: "test model dev test_loader (test_order env epoch)
          (st1\<lparr>loss_values := loss_values st1 @ tmp,
               calls := calls st1 @ [Call_test]\<rparr>) = Inr st3" and
    s: "scheduler_step (st3\<lparr>calls := calls st3 @ [Call_scheduler_step]\<rparr>) = Inr st'"
    by (auto simp: epoch_body_def Let_def split: sum.splits prod.splits)
  note tf = train_frame[OF t]
  note ef = test_Inr[OF e]
  have 3: "calls st3 = calls st @ [Call_train epoch, Call_test]"
       "opt_lr st3 = opt_lr st" "scheduler st3 = scheduler st" "saved st3 = saved st"
       "topology (params st3) = topology (params st)"
    using tf ef by simp_all
  have "step_size (scheduler (st3\<lparr>calls := calls st3 @ [Call_scheduler_step]\<rparr>)) = 1"
    using 3 assms(2) by simp
  from scheduler_step_Inr[OF s this] show ?thesis using 3 assms(2) by simp
qed

lemma epoch_loop:
  assumes "foldE (epoch_body fw flags model dev env train_loader test_loader) es st = Inr st'"
    and "step_size (scheduler st) = 1"
  shows "calls st' = calls st @ concat (map (\<lambda>e. [Call_train e, Call_test, Call_scheduler_step]) es)
         \<and> opt_lr st' = opt_lr st * gamma (scheduler st) ^ length es
         \<and> step_size (scheduler st') = 1 \<and> gamma (scheduler st') = gamma (scheduler st)
         \<and> last_epoch (scheduler st') = last_epoch (scheduler st) + length es
         \<and> saved st' = saved st
         \<and> topology (params st') = topology (params st)"
  using assms
proof (induction es arbitrary: st)
  case Nil
  then show ?case by simp
next
  case (Cons e es)
  from Cons.prems(1) obtain st1 where
    1: "epoch_body fw flags model dev env train_loader test_loader e st = Inr st1" and
    2: "foldE (epoch_body fw flags model dev env train_loader test_loader) es st1 = Inr st'"
    by (auto split: sum.splits)
  note b = epoch_body_Inr[OF 1 Cons.prems(2)]
  from b have s1: "step_size (scheduler st1) = 1" by simp
  from Cons.IH[OF 2 s1] b show ?case by simp
qed

lemma main_Inr:
  assumes "main fw layers_0_7 flags env = Inr st"
  obtains train_loader test_loader p st1 where
    "new_DataLoader (mnist_train env) (train_batch_size flags) True = Inr train_loader"
    "new_DataLoader (mnist_test env) (test_batch_size flags) True = Inr test_loader"
    "0 \<le> lr flags"
    "restore fw flags (disk env) (fresh env) = Inr p"
    "foldE (epoch_body fw flags (Model layers_0_7)
              (if cuda_available env then CUDA else CPU) env train_loader test_loader)
       [1..epochs flags] (initial_state flags p (disk env)) = Inr st1"
    "st = (if save_model flags
           then st1\<lparr>saved := torch_save (saved st1) (state_dict (params st1))
                                 (save_checkpoint flags)\<rparr>
           else st1)"
  using assms
  by (auto simp: main_def split: sum.splits if_splits)

lemma foldE_chain:
  "foldE f xs s = Inr s'
   \<Longrightarrow> \<exists>sts. length sts = Suc (length xs) \<and> sts ! 0 = s \<and> sts ! length xs = s'
         \<and> (\<forall>j<length xs. f (xs ! j) (sts ! j) = Inr (sts ! Suc j))"
proof (induction xs arbitrary: s)
  case Nil
  then show ?case by (intro exI[of _ "[s]"]) simp
next
  case (Cons x xs)
  from Cons.prems obtain s1 where 1: "f x s = Inr s1" and 2: "foldE f xs s1 = Inr s'"
    by (auto split: sum.splits)
  from Cons.IH[OF 2] obtain sts where sts:
    "length sts = Suc (length xs)" "sts ! 0 = s1" "sts ! length xs = s'"
    "\<forall>j<length xs. f (xs ! j) (sts ! j) = Inr (sts ! Suc j)" by blast
  have "\<forall>j<length (x # xs). f ((x # xs) ! j) ((s # sts) ! j) = Inr ((s # sts) ! Suc j)"
  proof (intro allI impI)
    fix j assume "j < length (x # xs)"
    then show "f ((x # xs) ! j) ((s # sts) ! j) = Inr ((s # sts) ! Suc j)"
      using 1 sts by (cases j) simp_all
  qed
  then show ?case
    using sts by (intro exI[of _ "s # sts"]) simp
qed

lemma new_DataLoader_Inr:
  assumes "new_DataLoader ds n sh = Inr loader"
  shows "loader = \<lparr>dataset = ds, batch_size = nat n, shuffle = sh\<rparr> \<and> 0 < n"
  using assms by (auto simp: new_DataLoader_def split: if_splits)

lemma length_filter_enumerate:
  "length (filter (\<lambda>p. Q (fst p)) (enumerate k xs)) = length (filter Q [k..<k + length xs])"
proof (induction xs arbitrary: k)
  case Nil
  then show ?case by simp
next
  case (Cons x xs)
  have "[k..<k + length (x # xs)] = k # [Suc k..<Suc k + length xs]"
    by (simp add: upt_conv_Cons del: upt_Suc)
  then show ?case using Cons[of "Suc k"] by simp
qed

lemma train_effects:
  assumes "train fw flags model dev loader perm loss epoch st = Inr (a, tmp)"
    and "0 < batch_size loader"
    and "mset (perm (dataset loader)) = mset (dataset loader)"
  defines "nb \<equiv> nat \<lceil>real (length (dataset loader)) / real (batch_size loader)\<rceil>"
  defines "k \<equiv> length (filter (\<lambda>i. log_interval flags dvd int i) [0..<nb])"
  shows "length (steps a) = length (steps st) + nb \<and> length tmp = k
         \<and> map printed_by (stdout a) = map printed_by (stdout st) @ replicate k (Inl epoch)"
proof -
  define bs where "bs = batches perm loader"
  have nb: "length bs = nb"
    unfolding bs_def nb_def using assms(2,3) by (rule length_batches)
  from assms(1) obtain ls where ls:
    "length ls = length bs" "steps a = steps st @ ls"
    "tmp = map snd (filter (\<lambda>(i, l). log_interval flags dvd int i) (enumerate 0 ls))"
    "stdout a = stdout st @
              map (\<lambda>(i, b, l). Progress epoch (i * length b) (length (dataset loader))
                     (100 * real i / real (len_loader loader)) l)
                (filter (\<lambda>(i, b, l). log_interval flags dvd int i) (enumerate 0 (zip bs ls)))"
    unfolding train_def bs_def[symmetric]
    using train_loop[of fw flags model dev loader loss epoch 0 bs "st\<lparr>training := True\<rparr>" "[]" a tmp]
    by auto
  have 1: "length tmp = k"
    using ls(1,3) nb length_filter_enumerate[of "\<lambda>i. log_interval flags dvd int i" 0 ls]
    by (simp add: k_def split_def)
  have "length (filter (\<lambda>(i, b, l). log_interval flags dvd int i) (enumerate 0 (zip bs ls))) = k"
    using ls(1) nb length_filter_enumerate[of "\<lambda>i. log_interval flags dvd int i" 0 "zip bs ls"]
    by (simp add: k_def split_def)
  moreover have "map printed_by (map (\<lambda>(i, b, l). Progress epoch (i * length b) (length (dataset loader))
                     (100 * real i / real (len_loader loader)) l) zs)
                 = replicate (length zs) (Inl epoch)" for zs :: "(nat \<times> ('a \<times> int) list \<times> real) list"
    by (induction zs) auto
  ultimately have 2: "map printed_by (stdout a) = map printed_by (stdout st) @ replicate k (Inl epoch)"
    using ls(4) by simp
  show ?thesis using 1 2 ls(1,2) nb by simp
qed

lemma scheduler_step_frame:
  assumes "scheduler_step st = Inr st'"
  shows "steps st' = steps st \<and> stdout st' = stdout st \<and> loss_values st' = loss_values st"
  using assms by (auto simp: scheduler_step_def Let_def split: sum.splits)

lemma epoch_body_passes:
  assumes "epoch_body fw flags model dev env train_loader test_loader epoch st = Inr st'"
  shows "\<exists>a tmp b.
           train fw flags model dev train_loader (train_order env epoch) (loss_fn flags) epoch
             (st\<lparr>calls := calls st @ [Call_train epoch]\<rparr>) = Inr (a, tmp)
         \<and> test model dev test_loader (test_order env epoch)
             (a\<lparr>loss_values := loss_values a @ tmp, calls := calls a @ [Call_test]\<rparr>) = Inr b
         \<and> scheduler_step (b\<lparr>calls := calls b @ [Call_scheduler_step]\<rparr>) = Inr st'"
  using assms
  by (auto simp: epoch_body_def Let_def split: sum.splits prod.splits)

lemma epoch_body_effects:
  assumes "epoch_body fw flags model dev env train_loader test_loader epoch st = Inr st'"
    and "0 < batch_size train_loader"
    and "mset (train_order env epoch (dataset train_loader)) = mset (dataset train_loader)"
  defines "nb \<equiv> nat \<lceil>real (length (dataset train_loader)) / real (batch_size train_loader)\<rceil>"
  defines "k \<equiv> length (filter (\<lambda>i. log_interval flags dvd int i) [0..<nb])"
  shows "length (steps st') = length (steps st) + nb
         \<and> length (loss_values st') = length (loss_values st) + k
         \<and> map printed_by (stdout st')
             = map printed_by (stdout st) @ replicate k (Inl epoch)
                 @ [Inr (length (dataset test_loader))]"
proof -
  from epoch_body_passes[OF assms(1)] obtain a tmp b where
    t: "train fw flags model dev train_loader (train_order env epoch) (loss_fn flags) epoch
          (st\<lparr>calls := calls st @ [Call_train epoch]\<rparr>) = Inr (a, tmp)" and
    e: "test model dev test_loader (test_order env epoch)
          (a\<lparr>loss_values := loss_values a @ tmp, calls := calls a @ [Call_test]\<rparr>) = Inr b" and
    s: "scheduler_step (b\<lparr>calls := calls b @ [Call_scheduler_step]\<rparr>) = Inr st'"
    by blast
  note te = train_effects[OF t assms(2,3), folded nb_def, folded k_def]
  note tf = train_frame[OF t]
  note ef = test_Inr[OF e]
  note sf = scheduler_step_frame[OF s]
  have "steps b = steps a" "loss_values b = loss_values a @ tmp"
    "map printed_by (stdout b) = map printed_by (stdout a) @ [Inr (length (dataset test_loader))]"
    using ef by simp_all
  then show ?thesis using te tf sf by simp
qed

lemma epoch_loop_effects:
  assumes "foldE (epoch_body fw flags model dev env train_loader test_loader) es st = Inr st'"
    and "0 < batch_size train_loader"
    and "\<forall>e. mset (train_order env e (dataset train_loader)) = mset (dataset train_loader)"
  defines "nb \<equiv> nat \<lceil>real (length (dataset train_loader)) / real (batch_size train_loader)\<rceil>"
  defines "k \<equiv> length (filter (\<lambda>i. log_interval flags dvd int i) [0..<nb])"
  shows "length (steps st') = length (steps st) + length es * nb
         \<and> length (loss_values st') = length (loss_values st) + length es * k
         \<and> map printed_by (stdout st')
             = map printed_by (stdout st)
                 @ concat (map (\<lambda>e. replicate k (Inl e) @ [Inr (length (dataset test_loader))]) es)"
  using assms(1)
proof (induction es arbitrary: st)
  case Nil
  then show ?case by simp
next
  case (Cons e es)
  from Cons.prems obtain st1 where
    1: "epoch_body fw flags model dev env train_loader test_loader e st = Inr st1" and
    2: "foldE (epoch_body fw flags model dev env train_loader test_loader) es st1 = Inr st'"
    by (auto split: sum.splits)
  have p: "mset (train_order env e (dataset train_loader)) = mset (dataset train_loader)"
    using assms(3) by blast
  note b = epoch_body_effects[OF 1 assms(2) p, folded nb_def, folded k_def]
  from Cons.IH[OF 2] b show ?case by simp
qed

subsection \<open>A small run\<close>

lemma Linear_zero_weight:
  assumes "length b = m" and "length x = n"
  shows "Linear (zeros [m, n]) (Tensor [m] b) x = Inr b"
proof -
  have "(\<Sum>i\<leftarrow>[0..<n]. replicate (m * n) (0::real) ! (j * n + i) * x ! i) = 0" if "j < m" for j
  proof -
    have "j * n + i < m * n" if "i < n" for i
    proof -
      have "j * n + i < j * n + n" using that by simp
      also have "\<dots> = Suc j * n" by simp
      also have "\<dots> \<le> m * n" using \<open>j < m\<close> by (intro mult_le_mono1) simp
      finally show ?thesis .
    qed
    then have "map (\<lambda>i. replicate (m * n) (0::real) ! (j * n + i) * x ! i) [0..<n]
                 = map (\<lambda>i. 0) [0..<n]"
      by (intro map_cong) simp_all
    then have "(\<Sum>i\<leftarrow>[0..<n]. replicate (m * n) (0::real) ! (j * n + i) * x ! i)
                 = sum_list (map (\<lambda>i. 0) [0..<n])"
      by (simp only:)
    then show ?thesis by (simp only: sum_list_0)
  qed
  then have "map (\<lambda>j. (\<Sum>i\<leftarrow>[0..<n]. replicate (m * n) (0::real) ! (j * n + i) * x ! i) + b ! j) [0..<m]
               = map (\<lambda>j. b ! j) [0..<m]"
    by (intro map_cong) simp_all
  also have "\<dots> = b" using map_nth[of b] assms(1) by simp
  finally show ?thesis using assms by (simp add: Linear_def zeros_def)
qed

lemma sgd_tensor_zero: "sgd_tensor rate w (zeros_like w) = w"
proof -
  have "map2 (\<lambda>v d. v - rate * d) es (map (\<lambda>_. 0) es) = es" for es :: "real list"
    by (induction es) simp_all
  then show ?thesis by (cases w) (simp add: sgd_tensor_def zeros_like_def)
qed

lemma SGD_step_zero: "SGD_step rate p (zero_gradient p) = p"
  by (simp add: SGD_step_def zero_gradient_def sgd_tensor_zero)

lemma zero_parameters_topology: "topology zero_parameters = Model_shapes"
  by (simp add: topology_def state_dict_def zero_parameters_def zeros_def Model_shapes_def)

lemma Model_idle_zero: "Model idle_layers zero_parameters x = Inr (replicate 10 0)"
  using Linear_zero_weight[of "replicate 10 0" 10 "replicate 128 0" 128]
  by (simp add: Model_def idle_layers_def zero_parameters_def zeros_def)

lemma upt_0_10: "[0..<10] = [0, 1, 2, 3, 4, 5, 6, 7, 8, 9]"
  by (simp add: upt_conv_Cons del: upt_Suc)

lemma Model_idle_bias:
  assumes "length b = 10"
  shows "Model idle_layers (zero_parameters\<lparr>fc2_bias := Tensor [10] b\<rparr>) x = Inr b"
  using Linear_zero_weight[of b 10 "replicate 128 0" 128] assms
  by (simp add: Model_def idle_layers_def zero_parameters_def)

lemma SGD_step_last_bias:
  "SGD_step rate p ((zero_gradient p)\<lparr>fc2_bias := g\<rparr>)
     = p\<lparr>fc2_bias := sgd_tensor rate (fc2_bias p) g\<rparr>"
  by (simp add: SGD_step_def zero_gradient_def sgd_tensor_zero)

lemma fc2_bias_zero_parameters: "fc2_bias zero_parameters = Tensor [10] (replicate 10 0)"
  by (simp add: zero_parameters_def zeros_def)

lemma main_idle_example:
  "\<exists>st. main torch_idle idle_layers
          (default_FLAGS\<lparr>loss_fn := ''MSE'', epochs := 1, save_model := True\<rparr>)
          tiny_environment = Inr st
        \<and> params st = zero_parameters\<lparr>fc2_bias :=
             Tensor [10] [0, 0, 0, 1 / 100, 0, 0, 0, 1 / 100, 0, 0]\<rparr>
        \<and> stdout st = [Progress 1 0 2 0 (1 / 10), Report 0 0 1 0]"
  by (simp add: main_def new_DataLoader_def default_FLAGS_def tiny_environment_def restore_def
      initial_state_def epoch_body_def train_def train_batch_def test_def test_batch_def
      batches_def chunks.simps enumerate_eq_zip Let_def select_loss_def torch_idle_def
      mse_loss_def one_hot_rows SGD_step_last_bias Model_idle_zero Model_idle_bias
      fc2_bias_zero_parameters sgd_tensor_def bias_gradient_def value_of_def
      nll_loss_sum_def nll_one_def ignore_index_def argmax_def scheduler_step_def get_lr_def
      replicate_10 upt_0_10 upto_rec1 power2_eq_square len_loader_def numeral_2_eq_2)

lemma central_difference_quadratic:
  fixes a c d t :: real
  shows "((a * (t + 1)\<^sup>2 + c * (t + 1) + d) - (a * (t - 1)\<^sup>2 + c * (t - 1) + d)) / 2
           = 2 * a * t + c"
  by (simp add: power2_eq_square algebra_simps)

lemmas idle_run_simps =
  main_def new_DataLoader_def default_FLAGS_def tiny_environment_def restore_def
  initial_state_def epoch_body_def train_def train_batch_def test_def test_batch_def
  batches_def chunks.simps enumerate_eq_zip Let_def select_loss_def torch_idle_def
  mse_loss_def one_hot_rows SGD_step_last_bias Model_idle_zero Model_idle_bias
  fc2_bias_zero_parameters sgd_tensor_def bias_gradient_def value_of_def
  nll_loss_sum_def nll_one_def ignore_index_def argmax_def scheduler_step_def get_lr_def
  replicate_10 upt_0_10 upto_rec1 power2_eq_square len_loader_def numeral_2_eq_2

lemma main_idle_two_epochs:
  "\<exists>st. main torch_idle idle_layers (default_FLAGS\<lparr>loss_fn := ''MSE'', epochs := 2\<rparr>)
          tiny_environment = Inr st"
  by (simp add: idle_run_simps)

lemma epoch_loop_idle_example:
  "\<exists>st. foldE (epoch_body torch_idle (default_FLAGS\<lparr>loss_fn := ''MSE'', epochs := 2\<rparr>)
                 (Model idle_layers) CPU tiny_environment
                 \<lparr>dataset = mnist_train tiny_environment, batch_size = 128, shuffle = True\<rparr>
                 \<lparr>dataset = mnist_test tiny_environment, batch_size = 10000, shuffle = True\<rparr>)
          [1..2] (initial_state (default_FLAGS\<lparr>loss_fn := ''MSE'', epochs := 2\<rparr>)
                    zero_parameters Map.empty) = Inr st"
  by (simp add: idle_run_simps)

subsection \<open>The schedule and the order of the passes\<close>

text \<open>
  C3.  The state after \<open>k\<close> completed epochs of the loop that \<^verbatim>\<open>main\<close> runs has the rate
  \<open>lr \<times> 0.7\<^sup>k\<close> in its optimiser, and its scheduler has been stepped \<open>k\<close> times; so a
  run of \<^verbatim>\<open>main\<close> that returns ends with the rate \<open>lr \<times> 0.7\<^sup>e\<close> for \<open>e\<close> the number of
  epochs.  Nothing measured enters the rate.  (Products are taken over the reals.)
\<close>

theorem learning_rate_after_epochs:
  "(foldE (epoch_body fw flags model dev env train_loader test_loader) [1..k]
       (initial_state flags p fs) = Inr st
     \<longrightarrow> opt_lr st = lr flags * (7 / 10) ^ nat k \<and> last_epoch (scheduler st) = nat k)
   \<and> (main fw layers_0_7 flags env = Inr st'
     \<longrightarrow> opt_lr st' = lr flags * (7 / 10) ^ nat (epochs flags)
         \<and> last_epoch (scheduler st') = nat (epochs flags))"
proof (intro conjI impI)
  assume a: "foldE (epoch_body fw flags model dev env train_loader test_loader) [1..k]
       (initial_state flags p fs) = Inr st"
  have s: "step_size (scheduler (initial_state flags p fs)) = 1" by (simp add: initial_state_def)
  from epoch_loop[OF a s] show "opt_lr st = lr flags * (7 / 10) ^ nat k"
    and "last_epoch (scheduler st) = nat k"
    by (simp_all add: initial_state_def)
next
  assume "main fw layers_0_7 flags env = Inr st'"
  then obtain trl tel q st1 where
    a: "foldE (epoch_body fw flags (Model layers_0_7)
          (if cuda_available env then CUDA else CPU) env trl tel)
       [1..epochs flags] (initial_state flags q (disk env)) = Inr st1" and
    b: "st' = (if save_model flags
           then st1\<lparr>saved := torch_save (saved st1) (state_dict (params st1))
                                 (save_checkpoint flags)\<rparr>
           else st1)"
    by (rule main_Inr)
  have s: "step_size (scheduler (initial_state flags q (disk env))) = 1"
    by (simp add: initial_state_def)
  from epoch_loop[OF a s] b show "opt_lr st' = lr flags * (7 / 10) ^ nat (epochs flags)"
    and "last_epoch (scheduler st') = nat (epochs flags)"
    by (simp_all add: initial_state_def)
qed

theorem learning_rate_after_epochs_witness:
  "\<exists>st st'.
     foldE (epoch_body torch_idle (default_FLAGS\<lparr>loss_fn := ''MSE'', epochs := 2\<rparr>)
              (Model idle_layers) CPU tiny_environment
              \<lparr>dataset = mnist_train tiny_environment, batch_size = 128, shuffle = True\<rparr>
              \<lparr>dataset = mnist_test tiny_environment, batch_size = 10000, shuffle = True\<rparr>)
       [1..2] (initial_state (default_FLAGS\<lparr>loss_fn := ''MSE'', epochs := 2\<rparr>)
                 zero_parameters Map.empty) = Inr st
     \<and> main torch_idle idle_layers (default_FLAGS\<lparr>loss_fn := ''MSE'', epochs := 2\<rparr>)
         tiny_environment = Inr st'
     \<and> opt_lr st = 49 / 1000 \<and> last_epoch (scheduler st) = 2
     \<and> opt_lr st' = 49 / 1000 \<and> last_epoch (scheduler st') = 2"
proof -
  let ?flags = "default_FLAGS\<lparr>loss_fn := ''MSE'', epochs := 2\<rparr>"
  from epoch_loop_idle_example obtain st where
    a: "foldE (epoch_body torch_idle ?flags (Model idle_layers) CPU tiny_environment
              \<lparr>dataset = mnist_train tiny_environment, batch_size = 128, shuffle = True\<rparr>
              \<lparr>dataset = mnist_test tiny_environment, batch_size = 10000, shuffle = True\<rparr>)
       [1..2] (initial_state ?flags zero_parameters Map.empty) = Inr st"
    by blast
  from main_idle_two_epochs obtain st' where
    b: "main torch_idle idle_layers ?flags tiny_environment = Inr st'"
    by blast
  have "opt_lr st = 49 / 1000 \<and> last_epoch (scheduler st) = 2
        \<and> opt_lr st' = 49 / 1000 \<and> last_epoch (scheduler st') = 2"
    using a b learning_rate_after_epochs[where fw = torch_idle
        and flags = ?flags and model = "Model idle_layers" and dev = CPU
        and env = tiny_environment and k = 2 and p = zero_parameters and fs = Map.empty
        and st = st and ?layers_0_7.0 = idle_layers and st' = st']
    by (simp add: default_FLAGS_def power2_eq_square)
  then show ?thesis using a b by blast
qed

text \<open>
  C4.  A run of \<^verbatim>\<open>main\<close> that returns went through a chain of states, one after each
  epoch 1, ..., \<open>epochs\<close> (none when \<open>epochs \<le> 0\<close>): each is reached from the one before
  by a training pass over the training loader, then an evaluation pass over the test
  loader on the state the training pass left, then one scheduler step on the state the
  evaluation left.  What the run leaves behind says the same: the optimiser took
  \<open>epochs \<times> \<lceil>N / B\<rceil>\<close> steps; the printed lines are, epoch by epoch, the progress lines
  of that epoch's training pass followed by one report over the whole test set; the
  scheduler was stepped \<open>epochs\<close> times; and the calls of the loop were recorded in
  this order.
\<close>

theorem main_runs_epochs_in_order:
  assumes "main fw layers_0_7 flags env = Inr st"
    and "\<forall>e. mset (train_order env e (mnist_train env)) = mset (mnist_train env)"
  shows "let n = nat (epochs flags);
             train_loader = \<lparr>dataset = mnist_train env, batch_size = nat (train_batch_size flags),
                              shuffle = True\<rparr>;
             test_loader = \<lparr>dataset = mnist_test env, batch_size = nat (test_batch_size flags),
                             shuffle = True\<rparr>;
             dev = (if cuda_available env then CUDA else CPU);
             nb = nat \<lceil>real (length (mnist_train env)) / real (nat (train_batch_size flags))\<rceil>;
             k = length (filter (\<lambda>i. log_interval flags dvd int i) [0..<nb])
         in (\<exists>sts.
               length sts = Suc n
               \<and> (\<exists>p. restore fw flags (disk env) (fresh env) = Inr p
                       \<and> sts ! 0 = initial_state flags p (disk env))
               \<and> (\<forall>j<n. \<exists>a tmp b.
                      train fw flags (Model layers_0_7) dev train_loader
                        (train_order env (1 + int j)) (loss_fn flags) (1 + int j)
                        ((sts ! j)\<lparr>calls := calls (sts ! j) @ [Call_train (1 + int j)]\<rparr>)
                        = Inr (a, tmp)
                    \<and> test (Model layers_0_7) dev test_loader (test_order env (1 + int j))
                        (a\<lparr>loss_values := loss_values a @ tmp, calls := calls a @ [Call_test]\<rparr>)
                        = Inr b
                    \<and> scheduler_step (b\<lparr>calls := calls b @ [Call_scheduler_step]\<rparr>)
                        = Inr (sts ! Suc j))
               \<and> st = (if save_model flags
                        then (sts ! n)\<lparr>saved := torch_save (saved (sts ! n))
                                            (state_dict (params (sts ! n))) (save_checkpoint flags)\<rparr>
                        else sts ! n))
            \<and> length (steps st) = n * nb
            \<and> length (loss_values st) = n * k
            \<and> map printed_by (stdout st)
                = concat (map (\<lambda>e. replicate k (Inl e) @ [Inr (length (mnist_test env))])
                            [1..epochs flags])
            \<and> last_epoch (scheduler st) = n
            \<and> calls st = concat (map (\<lambda>e. [Call_train e, Call_test, Call_scheduler_step])
                                    [1..epochs flags])"
proof -
  define n where "n = nat (epochs flags)"
  define trl where "trl = \<lparr>dataset = mnist_train env, batch_size = nat (train_batch_size flags),
                              shuffle = True\<rparr>"
  define tel where "tel = \<lparr>dataset = mnist_test env, batch_size = nat (test_batch_size flags),
                             shuffle = True\<rparr>"
  define dev where "dev = (if cuda_available env then CUDA else CPU)"
  define nb where "nb = nat \<lceil>real (length (mnist_train env)) / real (nat (train_batch_size flags))\<rceil>"
  define k where "k = length (filter (\<lambda>i. log_interval flags dvd int i) [0..<nb])"
  from assms(1) obtain trl' tel' q st1 where
    l1: "new_DataLoader (mnist_train env) (train_batch_size flags) True = Inr trl'" and
    l2: "new_DataLoader (mnist_test env) (test_batch_size flags) True = Inr tel'" and
    r: "restore fw flags (disk env) (fresh env) = Inr q" and
    a: "foldE (epoch_body fw flags (Model layers_0_7)
          (if cuda_available env then CUDA else CPU) env trl' tel')
       [1..epochs flags] (initial_state flags q (disk env)) = Inr st1" and
    b: "st = (if save_model flags
           then st1\<lparr>saved := torch_save (saved st1) (state_dict (params st1))
                                 (save_checkpoint flags)\<rparr>
           else st1)"
    by (rule main_Inr)
  have t1: "trl' = trl" and pos: "0 < train_batch_size flags"
    using new_DataLoader_Inr[OF l1] by (simp_all add: trl_def)
  have t2: "tel' = tel" using new_DataLoader_Inr[OF l2] by (simp add: tel_def)
  note a' = a[unfolded t1 t2 dev_def[symmetric]]
  have len: "length [1..epochs flags] = n" by (simp add: n_def)
  have nth: "[1..epochs flags] ! j = 1 + int j" if "j < n" for j
    using that by (simp add: n_def)
  from foldE_chain[OF a'] obtain sts where sts:
    "length sts = Suc n" "sts ! 0 = initial_state flags q (disk env)" "sts ! n = st1"
    "\<forall>j<n. epoch_body fw flags (Model layers_0_7) dev env trl tel ([1..epochs flags] ! j) (sts ! j)
              = Inr (sts ! Suc j)"
    unfolding len by blast
  have chain: "\<forall>j<n. \<exists>a tmp b.
                      train fw flags (Model layers_0_7) dev trl
                        (train_order env (1 + int j)) (loss_fn flags) (1 + int j)
                        ((sts ! j)\<lparr>calls := calls (sts ! j) @ [Call_train (1 + int j)]\<rparr>)
                        = Inr (a, tmp)
                    \<and> test (Model layers_0_7) dev tel (test_order env (1 + int j))
                        (a\<lparr>loss_values := loss_values a @ tmp, calls := calls a @ [Call_test]\<rparr>)
                        = Inr b
                    \<and> scheduler_step (b\<lparr>calls := calls b @ [Call_scheduler_step]\<rparr>)
                        = Inr (sts ! Suc j)"
  proof (intro allI impI)
    fix j assume j: "j < n"
    then have "epoch_body fw flags (Model layers_0_7) dev env trl tel (1 + int j) (sts ! j)
              = Inr (sts ! Suc j)" using sts(4) nth by simp
    then show "\<exists>a tmp b.
                      train fw flags (Model layers_0_7) dev trl
                        (train_order env (1 + int j)) (loss_fn flags) (1 + int j)
                        ((sts ! j)\<lparr>calls := calls (sts ! j) @ [Call_train (1 + int j)]\<rparr>)
                        = Inr (a, tmp)
                    \<and> test (Model layers_0_7) dev tel (test_order env (1 + int j))
                        (a\<lparr>loss_values := loss_values a @ tmp, calls := calls a @ [Call_test]\<rparr>)
                        = Inr b
                    \<and> scheduler_step (b\<lparr>calls := calls b @ [Call_scheduler_step]\<rparr>)
                        = Inr (sts ! Suc j)"
      by (rule epoch_body_passes)
  qed
  have first: "\<exists>sts.
               length sts = Suc n
               \<and> (\<exists>p. restore fw flags (disk env) (fresh env) = Inr p
                       \<and> sts ! 0 = initial_state flags p (disk env))
               \<and> (\<forall>j<n. \<exists>a tmp b.
                      train fw flags (Model layers_0_7) dev trl
                        (train_order env (1 + int j)) (loss_fn flags) (1 + int j)
                        ((sts ! j)\<lparr>calls := calls (sts ! j) @ [Call_train (1 + int j)]\<rparr>)
                        = Inr (a, tmp)
                    \<and> test (Model layers_0_7) dev tel (test_order env (1 + int j))
                        (a\<lparr>loss_values := loss_values a @ tmp, calls := calls a @ [Call_test]\<rparr>)
                        = Inr b
                    \<and> scheduler_step (b\<lparr>calls := calls b @ [Call_scheduler_step]\<rparr>)
                        = Inr (sts ! Suc j))
               \<and> st = (if save_model flags
                        then (sts ! n)\<lparr>saved := torch_save (saved (sts ! n))
                                            (state_dict (params (sts ! n))) (save_checkpoint flags)\<rparr>
                        else sts ! n)"
    using sts(1,2,3) r chain b by (intro exI[of _ sts]) auto
  have bs: "0 < batch_size trl" using pos by (simp add: trl_def)
  have pm: "\<forall>e. mset (train_order env e (dataset trl)) = mset (dataset trl)"
    using assms(2) by (simp add: trl_def)
  have s: "step_size (scheduler (initial_state flags q (disk env))) = 1"
    by (simp add: initial_state_def)
  note eff = epoch_loop_effects[OF a' bs pm]
  note lp = epoch_loop[OF a' s]
  have rest: "length (steps st) = n * nb" "length (loss_values st) = n * k"
    "map printed_by (stdout st)
                = concat (map (\<lambda>e. replicate k (Inl e) @ [Inr (length (mnist_test env))])
                            [1..epochs flags])"
    "last_epoch (scheduler st) = n"
    "calls st = concat (map (\<lambda>e. [Call_train e, Call_test, Call_scheduler_step])
                                    [1..epochs flags])"
    using eff lp b len
    by (simp_all add: initial_state_def trl_def tel_def nb_def k_def)
  show ?thesis
    unfolding Let_def n_def[symmetric] trl_def[symmetric] tel_def[symmetric] dev_def[symmetric]
      nb_def[symmetric] k_def[symmetric]
    using first rest by blast
qed

theorem main_runs_epochs_in_order_witness:
  "\<exists>st. main torch_idle idle_layers (default_FLAGS\<lparr>loss_fn := ''MSE'', epochs := 2\<rparr>)
          tiny_environment = Inr st
     \<and> (\<forall>e. mset (train_order tiny_environment e (mnist_train tiny_environment))
              = mset (mnist_train tiny_environment))
     \<and> length (steps st) = 2 \<and> length (loss_values st) = 2
     \<and> map printed_by (stdout st) = [Inl 1, Inr 1, Inl 2, Inr 1]
     \<and> last_epoch (scheduler st) = 2
     \<and> calls st = [Call_train 1, Call_test, Call_scheduler_step,
                   Call_train 2, Call_test, Call_scheduler_step]"
proof -
  let ?flags = "default_FLAGS\<lparr>loss_fn := ''MSE'', epochs := 2\<rparr>"
  from main_idle_two_epochs obtain st where
    run: "main torch_idle idle_layers ?flags tiny_environment = Inr st" by blast
  have pm: "\<forall>e. mset (train_order tiny_environment e (mnist_train tiny_environment))
              = mset (mnist_train tiny_environment)"
    by (simp add: tiny_environment_def)
  have "\<lceil>(1::real) / 64\<rceil> = 1"
    by (rule ceiling_unique) simp_all
  then have n: "nat \<lceil>(1::real) / 64\<rceil> = Suc 0"
    by simp
  have "length (steps st) = 2 \<and> length (loss_values st) = 2
     \<and> map printed_by (stdout st) = [Inl 1, Inr 1, Inl 2, Inr 1]
     \<and> last_epoch (scheduler st) = 2
     \<and> calls st = [Call_train 1, Call_test, Call_scheduler_step,
                   Call_train 2, Call_test, Call_scheduler_step]"
    using main_runs_epochs_in_order[OF run pm] n
    by (simp add: Let_def default_FLAGS_def tiny_environment_def upto_rec1)
  then show ?thesis using run pm by (intro exI[of _ st]) simp
qed

subsection \<open>Checkpoints\<close>

lemma load_own_state_dict:
  assumes "topology q = topology p"
  shows "load_state_dict q (state_dict p) = Inr p"
proof -
  have sh: "shape (conv1_weight q) = shape (conv1_weight p)" "shape (conv1_bias q) = shape (conv1_bias p)"
    "shape (conv2_weight q) = shape (conv2_weight p)" "shape (conv2_bias q) = shape (conv2_bias p)"
    "shape (fc1_weight q) = shape (fc1_weight p)" "shape (fc1_bias q) = shape (fc1_bias p)"
    "shape (fc2_weight q) = shape (fc2_weight p)" "shape (fc2_bias q) = shape (fc2_bias p)"
    using assms by (simp_all add: topology_def state_dict_def)
  have keys: "map fst (state_dict p) = map fst (state_dict q)"
    by (simp add: state_dict_def)
  have ok: "\<not> list_ex (\<lambda>(k, t). map_option shape (map_of (state_dict p) k) \<noteq> Some (shape t))
              (state_dict q)"
    using sh by (simp add: state_dict_def)
  have "\<lparr>conv1_weight = the (map_of (state_dict p) ''0.weight''),
         conv1_bias = the (map_of (state_dict p) ''0.bias''),
         conv2_weight = the (map_of (state_dict p) ''2.weight''),
         conv2_bias = the (map_of (state_dict p) ''2.bias''),
         fc1_weight = the (map_of (state_dict p) ''6.weight''),
         fc1_bias = the (map_of (state_dict p) ''6.bias''),
         fc2_weight = the (map_of (state_dict p) ''8.weight''),
         fc2_bias = the (map_of (state_dict p) ''8.bias'')\<rparr> = p"
    by (simp add: state_dict_def)
  then show ?thesis
    unfolding load_state_dict_def using keys ok by simp
qed

lemma load_state_dict_topology:
  assumes "load_state_dict p ckpt = Inr p'"
  shows "topology p' = topology p"
proof -
  from assms have
    ok: "\<not> list_ex (\<lambda>(k, t). map_option shape (map_of ckpt k) \<noteq> Some (shape t)) (state_dict p)"
    and p': "p' = \<lparr>conv1_weight = the (map_of ckpt ''0.weight''),
                conv1_bias = the (map_of ckpt ''0.bias''),
                conv2_weight = the (map_of ckpt ''2.weight''),
                conv2_bias = the (map_of ckpt ''2.bias''),
                fc1_weight = the (map_of ckpt ''6.weight''),
                fc1_bias = the (map_of ckpt ''6.bias''),
                fc2_weight = the (map_of ckpt ''8.weight''),
                fc2_bias = the (map_of ckpt ''8.bias'')\<rparr>"
    by (auto simp: load_state_dict_def split: if_splits)
  from ok have "shape (the (map_of ckpt k)) = shape t" if "(k, t) \<in> set (state_dict p)" for k t
    using that by (auto simp: list_ex_iff)
  then show ?thesis
    unfolding p' by (simp add: topology_def state_dict_def)
qed

lemma restore_topology:
  assumes "restore fw flags fs p = Inr p'"
  shows "topology p' = topology p"
  using assms load_state_dict_topology
  by (auto simp: restore_def split: option.splits if_splits sum.splits)

lemma main_topology:
  assumes "main fw layers_0_7 flags env = Inr st"
  shows "topology (params st) = topology (fresh env)"
proof -
  from assms obtain trl tel q st1 where
    r: "restore fw flags (disk env) (fresh env) = Inr q" and
    a: "foldE (epoch_body fw flags (Model layers_0_7)
          (if cuda_available env then CUDA else CPU) env trl tel)
       [1..epochs flags] (initial_state flags q (disk env)) = Inr st1" and
    b: "st = (if save_model flags
           then st1\<lparr>saved := torch_save (saved st1) (state_dict (params st1))
                                 (save_checkpoint flags)\<rparr>
           else st1)"
    by (rule main_Inr)
  have s: "step_size (scheduler (initial_state flags q (disk env))) = 1"
    by (simp add: initial_state_def)
  from epoch_loop[OF a s] b restore_topology[OF r] show ?thesis
    by (simp add: initial_state_def)
qed

lemma main_saves:
  assumes "main fw layers_0_7 flags env = Inr st" and "save_model flags"
  shows "saved st (save_checkpoint flags) = Some (state_dict (params st))"
proof -
  from assms(1) obtain trl tel q st1 where
    b: "st = (if save_model flags
           then st1\<lparr>saved := torch_save (saved st1) (state_dict (params st1))
                                 (save_checkpoint flags)\<rparr>
           else st1)"
    by (rule main_Inr)
  then show ?thesis using assms(2) by (simp add: torch_save_def)
qed

text \<open>
  C7.  Let a run of \<^verbatim>\<open>main\<close> with \<^verbatim>\<open>save_model\<close> return, and let reading back the file
  it wrote give the state dictionary that was written (the serialisation of the
  framework loses nothing).  Restoring that file into a model \<open>q\<close> of the topology of the
  run's own fresh model, as lines 143 to 145 do for the path given as
  \<^verbatim>\<open>start_checkpoint\<close>, passes the key and shape checks and gives exactly the
  parameters the run ended with, whatever values \<open>q\<close> had; so the restored model and
  the saved one compute the same outputs on every batch of inputs.
\<close>

theorem checkpoint_round_trip:
  assumes "main fw layers_0_7 flags env = Inr st" and "save_model flags"
    and "start_checkpoint flags' = Some (save_checkpoint flags)"
    and "save_checkpoint flags \<noteq> []"
    and "topology q = topology (fresh env)"
    and "unpickle fw' (state_dict (params st)) = Inr (state_dict (params st))"
  shows "restore fw' flags' (saved st) q = Inr (params st)
         \<and> (\<exists>p'. restore fw' flags' (saved st) q = Inr p'
               \<and> mapE (Model layers_0_7 p') inputs = mapE (Model layers_0_7 (params st)) inputs)"
proof -
  have t: "topology q = topology (params st)"
    using main_topology[OF assms(1)] assms(5) by simp
  have "restore fw' flags' (saved st) q = load_state_dict q (state_dict (params st))"
    using main_saves[OF assms(1,2)] assms(3,4,6) by (simp add: restore_def torch_load_def)
  then have "restore fw' flags' (saved st) q = Inr (params st)"
    using load_own_state_dict[OF t] by simp
  then show ?thesis by simp
qed

theorem checkpoint_round_trip_witness:
  "\<exists>st. main torch_idle idle_layers
          (default_FLAGS\<lparr>loss_fn := ''MSE'', epochs := 1, save_model := True\<rparr>)
          tiny_environment = Inr st
     \<and> save_model (default_FLAGS\<lparr>loss_fn := ''MSE'', epochs := 1, save_model := True\<rparr>)
     \<and> start_checkpoint (default_FLAGS\<lparr>start_checkpoint := Some ''downloads/mnist_cnn.pth''\<rparr>)
         = Some (save_checkpoint
                   (default_FLAGS\<lparr>loss_fn := ''MSE'', epochs := 1, save_model := True\<rparr>))
     \<and> topology zero_parameters = topology (fresh tiny_environment)
     \<and> unpickle (torch_idle :: nat torch) (state_dict (params st)) = Inr (state_dict (params st))
     \<and> params st
         = zero_parameters\<lparr>fc2_bias := Tensor [10] [0, 0, 0, 1 / 100, 0, 0, 0, 1 / 100, 0, 0]\<rparr>
     \<and> params st \<noteq> zero_parameters
     \<and> restore (torch_idle :: nat torch)
          (default_FLAGS\<lparr>start_checkpoint := Some ''downloads/mnist_cnn.pth''\<rparr>)
          (saved st) zero_parameters
         = Inr (zero_parameters\<lparr>fc2_bias :=
                  Tensor [10] [0, 0, 0, 1 / 100, 0, 0, 0, 1 / 100, 0, 0]\<rparr>)"
proof -
  let ?flags = "default_FLAGS\<lparr>loss_fn := ''MSE'', epochs := 1, save_model := True\<rparr>"
  let ?flags' = "default_FLAGS\<lparr>start_checkpoint := Some ''downloads/mnist_cnn.pth''\<rparr>"
  let ?p = "zero_parameters\<lparr>fc2_bias := Tensor [10] [0, 0, 0, 1 / 100, 0, 0, 0, 1 / 100, 0, 0]\<rparr>"
  from main_idle_example obtain st where
    run: "main torch_idle idle_layers ?flags tiny_environment = Inr st" and
    p: "params st = ?p" by blast
  have 1: "save_model ?flags" by simp
  have 2: "start_checkpoint ?flags' = Some (save_checkpoint ?flags)"
    by (simp add: default_FLAGS_def)
  have 3: "save_checkpoint ?flags \<noteq> []" by (simp add: default_FLAGS_def)
  have 4: "topology zero_parameters = topology (fresh tiny_environment)"
    by (simp add: tiny_environment_def)
  have 5: "unpickle (torch_idle :: nat torch) (state_dict (params st)) = Inr (state_dict (params st))"
    by (simp add: torch_idle_def)
  have "fc2_bias ?p \<noteq> fc2_bias zero_parameters"
    by (simp add: fc2_bias_zero_parameters replicate_10)
  then have 6: "params st \<noteq> zero_parameters" unfolding p
    by (metis parameters.select_convs(8) parameters.surjective parameters.update_convs(8))
  from checkpoint_round_trip[OF run 1 2 3 4 5]
  have "restore (torch_idle :: nat torch) ?flags' (saved st) zero_parameters = Inr ?p"
    unfolding p by simp
  then show ?thesis using run 1 2 4 5 6 p by (intro exI[of _ st]) simp
qed

subsection \<open>The choice of the criterion\<close>

lemma select_loss_other:
  "loss \<noteq> ''CE'' \<Longrightarrow> select_loss fw dev loss = select_loss fw dev ''MSE''"
  by (simp add: select_loss_def fun_eq_iff)

lemma train_batch_other:
  assumes "loss \<noteq> ''CE''"
  shows "train_batch fw flags model dev loader loss
         = train_batch fw flags model dev loader ''MSE''"
  unfolding train_batch_def select_loss_other[OF assms] ..

lemma train_other:
  assumes "loss \<noteq> ''CE''"
  shows "train fw flags model dev loader perm loss
         = train fw flags model dev loader perm ''MSE''"
  unfolding train_def train_batch_other[OF assms] ..

lemma epoch_body_other:
  assumes "loss \<noteq> ''CE''"
  shows "epoch_body fw (flags\<lparr>loss_fn := loss\<rparr>) model dev env train_loader test_loader
         = epoch_body fw (flags\<lparr>loss_fn := ''MSE''\<rparr>) model dev env train_loader test_loader"
proof -
  have tb: "train_batch fw (flags\<lparr>loss_fn := loss\<rparr>) model dev train_loader loss epoch
        = train_batch fw (flags\<lparr>loss_fn := ''MSE''\<rparr>) model dev train_loader ''MSE'' epoch"
    for epoch
    unfolding train_batch_other[OF assms]
    by (auto simp: train_batch_def fun_eq_iff Let_def split: sum.splits)
  have "train fw (flags\<lparr>loss_fn := loss\<rparr>) model dev train_loader perm loss epoch
        = train fw (flags\<lparr>loss_fn := ''MSE''\<rparr>) model dev train_loader perm ''MSE'' epoch"
    for perm epoch
    unfolding train_def tb ..
  then show ?thesis by (simp add: epoch_body_def fun_eq_iff)
qed

lemma main_other:
  assumes "loss \<noteq> ''CE''"
  shows "main fw layers_0_7 (flags\<lparr>loss_fn := loss\<rparr>) env
         = main fw layers_0_7 (flags\<lparr>loss_fn := ''MSE''\<rparr>) env"
  by (auto simp: main_def epoch_body_other[OF assms] restore_def initial_state_def
      split: sum.splits)

lemma train_batch_loss:
  assumes "train_batch fw flags model dev loader loss epoch (i, batch) (st, tmp) = Inr (st1, tmp1)"
  shows "\<exists>scores. mapE (model (params st)) (map fst batch) = Inr scores
           \<and> (if loss = ''CE''
               then CrossEntropyLoss fw scores (map snd batch) = Inr (last (steps st1))
               else dev = CPU
                    \<and> MSELoss fw scores (one_hot (map snd batch)) = Inr (last (steps st1)))"
  using assms
  by (cases dev) (auto simp: train_batch_def select_loss_def Let_def split: sum.splits if_splits)

text \<open>
  On a GPU the branch that is not cross-entropy raises in every batch: the targets are
  on the device when \<^verbatim>\<open>target.numpy()\<close> is called.
\<close>

lemma train_batch_cuda_raises:
  assumes "loss \<noteq> ''CE''"
  shows "\<exists>e. train_batch fw flags model CUDA loader loss epoch ib s = Inl e"
  using assms
  by (cases ib; cases s) (auto simp: train_batch_def select_loss_def Let_def split: sum.splits)

text \<open>
  C1 as the script has it.  The choice is a two-way branch on \<^verbatim>\<open>loss == 'CE'\<close>, taken
  anew in every batch with the same string.  In a training step that returns, the loss
  is the cross-entropy of the outputs against the integer labels when the string is
  \<^verbatim>\<open>CE\<close>, and otherwise the mean-squared error of the outputs against the one-hot
  encoding of the labels.  Every string other than \<^verbatim>\<open>CE\<close> behaves as \<^verbatim>\<open>MSE\<close> does, in a
  training pass and in the whole run: an unknown value of the flag raises only where
  \<^verbatim>\<open>MSE\<close> itself does.
\<close>

theorem loss_selection_two_way:
  "(train_batch fw flags model dev loader loss epoch (i, batch) (st, tmp) = Inr (st1, tmp1)
      \<longrightarrow> (\<exists>scores. mapE (model (params st)) (map fst batch) = Inr scores
             \<and> (if loss = ''CE''
                 then CrossEntropyLoss fw scores (map snd batch) = Inr (last (steps st1))
                 else dev = CPU
                      \<and> MSELoss fw scores (one_hot (map snd batch)) = Inr (last (steps st1)))))
   \<and> (loss \<noteq> ''CE''
      \<longrightarrow> train fw flags model dev loader perm loss epoch st
            = train fw flags model dev loader perm ''MSE'' epoch st
          \<and> main fw layers_0_7 (flags\<lparr>loss_fn := loss\<rparr>) env
            = main fw layers_0_7 (flags\<lparr>loss_fn := ''MSE''\<rparr>) env)"
  using train_batch_loss[of fw flags model dev loader loss epoch i batch st tmp st1 tmp1]
    train_other[of loss fw flags model dev loader perm]
    main_other[of loss fw layers_0_7 flags env]
  by simp

theorem loss_selection_two_way_witness:
  "\<exists>st1 tmp1.
     train_batch torch_idle default_FLAGS (Model idle_layers) CPU
       \<lparr>dataset = [(0::nat, 3)], batch_size = 128, shuffle = True\<rparr> ''XYZ'' 1 (0, [(0, 3)])
       (initial_state default_FLAGS zero_parameters Map.empty, []) = Inr (st1, tmp1)
     \<and> ''XYZ'' \<noteq> ''CE''
     \<and> MSELoss (torch_idle :: nat torch) [replicate 10 0] (one_hot [3])
         = Inr (last (steps st1))
     \<and> main torch_idle idle_layers (default_FLAGS\<lparr>loss_fn := ''XYZ''\<rparr>) tiny_environment
         = main torch_idle idle_layers (default_FLAGS\<lparr>loss_fn := ''MSE''\<rparr>) tiny_environment"
proof -
  let ?loader = "\<lparr>dataset = [(0::nat, 3::int)], batch_size = 128, shuffle = True\<rparr>"
  let ?st = "initial_state default_FLAGS zero_parameters Map.empty"
  have "\<exists>st1 tmp1. train_batch torch_idle default_FLAGS (Model idle_layers) CPU ?loader ''XYZ'' 1
          (0, [(0, 3)]) (?st, []) = Inr (st1, tmp1)"
    by (simp add: idle_run_simps)
  then obtain st1 tmp1 where run:
    "train_batch torch_idle default_FLAGS (Model idle_layers) CPU ?loader ''XYZ'' 1
          (0, [(0, 3)]) (?st, []) = Inr (st1, tmp1)"
    by blast
  have ne: "''XYZ'' \<noteq> ''CE''" by simp
  note t = loss_selection_two_way[where fw = torch_idle and flags = default_FLAGS
      and model = "Model idle_layers" and dev = CPU and loader = ?loader and loss = "''XYZ''"
      and epoch = 1 and i = 0 and batch = "[(0, 3)]" and st = ?st and tmp = "[]"
      and ?st1.0 = st1 and ?tmp1.0 = tmp1 and ?layers_0_7.0 = idle_layers
      and env = tiny_environment and perm = rev]
  from t run ne have
    "MSELoss (torch_idle :: nat torch) [replicate 10 0] (one_hot [3])
       = Inr (last (steps st1))"
    by (auto simp: initial_state_def Model_idle_zero)
  moreover from t ne have
    "main torch_idle idle_layers (default_FLAGS\<lparr>loss_fn := ''XYZ''\<rparr>) tiny_environment
       = main torch_idle idle_layers (default_FLAGS\<lparr>loss_fn := ''MSE''\<rparr>) tiny_environment"
    by blast
  ultimately show ?thesis using run ne by blast
qed

text \<open>
  C1 as the specification words it (any other string fails the run) does not hold:
  with the flag \<^verbatim>\<open>XYZ\<close> a training pass of the model
  without parameters returns, and so does the small run of \<^verbatim>\<open>main\<close>; the loss logged,
  \<open>1/10\<close>, is the mean-squared error of ten zero scores against a one-hot row (the
  cross-entropy would be \<open>ln 10\<close>).
\<close>

theorem unknown_loss_name_runs_as_mse:
  "map_sum id snd
     (train torch_constant default_FLAGS constant_model CPU
        \<lparr>dataset = [(0::nat, 3), (1, 7)], batch_size = 128, shuffle = True\<rparr> rev ''XYZ'' 1
        (initial_state default_FLAGS zero_parameters Map.empty)) = Inr [1 / 10]
   \<and> map_sum id loss_values
       (main torch_idle idle_layers (default_FLAGS\<lparr>loss_fn := ''XYZ'', epochs := 1\<rparr>)
          tiny_environment) = Inr [1 / 10]"
proof -
  have "map_sum id snd
     (train torch_constant default_FLAGS constant_model CPU
        \<lparr>dataset = [(0::nat, 3), (1, 7)], batch_size = 128, shuffle = True\<rparr> rev ''XYZ'' 1
        (initial_state default_FLAGS zero_parameters Map.empty)) = Inr [1 / 10]"
    by (simp add: train_def batches_def chunks.simps enumerate_eq_zip train_batch_def
        constant_model_def select_loss_def torch_constant_def mse_loss_def one_hot_rows
        default_FLAGS_def initial_state_def Let_def power2_eq_square replicate_10)
  moreover have "map_sum id loss_values
       (main torch_idle idle_layers (default_FLAGS\<lparr>loss_fn := ''XYZ'', epochs := 1\<rparr>)
          tiny_environment) = Inr [1 / 10]"
    by (simp add: idle_run_simps)
  ultimately show ?thesis by (rule conjI)
qed

subsection \<open>The sign of the losses\<close>

text \<open>
  The two training criteria, on the batches where \<open>mse_loss\<close> and \<open>cross_entropy\<close>
  return, are not negative, and a report's count of correct predictions is at most its
  total.
\<close>

lemma mse_loss_nonneg:
  assumes "mse_loss scores target = Inr v"
  shows "0 \<le> v"
proof -
  have "0 \<le> (\<Sum>(v, t)\<leftarrow>zip (concat scores) (concat target). (v - t)\<^sup>2)"
    by (rule sum_list_nonneg) auto
  then show ?thesis using assms by (auto simp: mse_loss_def split: if_splits)
qed

lemma exp_le_sum_exp:
  "k < length out \<Longrightarrow> exp (out ! k) \<le> (\<Sum>v\<leftarrow>out. exp (v::real))"
proof (induction out arbitrary: k)
  case Nil
  then show ?case by simp
next
  case (Cons a out)
  have nn: "0 \<le> (\<Sum>v\<leftarrow>out. exp v)" by (rule sum_list_nonneg) auto
  show ?case
  proof (cases k)
    case 0
    then show ?thesis using nn by simp
  next
    case (Suc j)
    then have "exp (out ! j) \<le> (\<Sum>v\<leftarrow>out. exp v)" using Cons by simp
    moreover have "0 \<le> exp a" by simp
    ultimately have "exp (out ! j) \<le> exp a + (\<Sum>v\<leftarrow>out. exp v)" by linarith
    then show ?thesis using Suc by simp
  qed
qed

lemma score_le_log_sum_exp:
  assumes "k < length out"
  shows "out ! k \<le> ln (\<Sum>v\<leftarrow>out. exp (v::real))"
proof -
  have "ln (exp (out ! k)) \<le> ln (\<Sum>v\<leftarrow>out. exp v)"
    using exp_le_sum_exp[OF assms] by (subst ln_le_cancel_iff) (auto intro: less_le_trans[OF exp_gt_zero])
  then show ?thesis by simp
qed

lemma cross_entropy_nonneg:
  assumes "cross_entropy scores target = Inr v"
  shows "0 \<le> v"
proof -
  from assms have
    ok: "\<not> list_ex (\<lambda>(out, t). t < 0 \<or> int (length out) \<le> t) (zip scores target)" and
    v: "v = (\<Sum>(out, t)\<leftarrow>zip scores target. ln (\<Sum>v\<leftarrow>out. exp v) - out ! nat t)
              / real (length target)"
    by (auto simp: cross_entropy_def split: if_splits)
  have "0 \<le> (\<Sum>(out, t)\<leftarrow>zip scores target. ln (\<Sum>v\<leftarrow>out. exp v) - out ! nat t)"
  proof (rule sum_list_nonneg)
    fix x
    assume "x \<in> set (map (\<lambda>(out, t). ln (\<Sum>v\<leftarrow>out. exp v) - out ! nat t) (zip scores target))"
    then obtain out t where m: "(out, t) \<in> set (zip scores target)"
      and x: "x = ln (\<Sum>v\<leftarrow>out. exp v) - out ! nat t" by auto
    from ok m have "0 \<le> t" "t < int (length out)" by (auto simp: list_ex_iff)
    then have "nat t < length out" by simp
    from score_le_log_sum_exp[OF this] show "0 \<le> x" using x by simp
  qed
  then show ?thesis unfolding v by simp
qed

lemma test_accuracy_bounds:
  assumes "test model dev loader perm st = Inr st'"
    and "0 < batch_size loader"
    and "mset (perm (dataset loader)) = mset (dataset loader)"
  shows "\<exists>l c n pct. stdout st' = stdout st @ [Report l c n pct] \<and> c \<le> n \<and> 0 < n
            \<and> pct = 100 * (real c / real n) \<and> 0 \<le> pct \<and> pct \<le> 100"
proof -
  let ?c = "length (filter (top1_correct model (params st)) (concat (batches perm loader)))"
  let ?n = "length (dataset loader)"
  have "length (concat (batches perm loader)) = ?n"
    using concat_batches[of loader perm, OF assms(2,3)] by (rule mset_eq_length)
  then have c: "?c \<le> ?n" using length_filter_le[of "top1_correct model (params st)"
      "concat (batches perm loader)"] by simp
  from test_Inr[OF assms(1)] have n: "0 < ?n" and
    s: "stdout st' = stdout st @
         [Report ((\<Sum>e\<leftarrow>concat (batches perm loader). example_nll model (params st) e) / real ?n)
            ?c ?n (100 * real ?c / real ?n)]"
    by simp_all
  have "100 * real ?c / real ?n \<le> 100" using c n by (simp add: divide_le_eq)
  then show ?thesis using s c n by simp
qed

text \<open>
  C6.  The mean loss of an evaluation report can be negative.  \<^verbatim>\<open>test\<close> gives the raw
  scores of the last linear layer to \<^verbatim>\<open>F.nll_loss\<close>, which negates the score of the
  label.  Here all weights are zero and the last bias is \<open>(1, 0, ..., 0)\<close>, so every
  input scores 1 on class 0; on a test set of one example of class 0 the report is:
  mean loss \<open>-1\<close>, one of one correct, 100 percent.
\<close>

theorem evaluation_loss_negative:
  "map_sum id stdout
     (test (Model idle_layers) CPU \<lparr>dataset = [(0::nat, 0)], batch_size = 10000, shuffle = True\<rparr>
        (\<lambda>xs. xs)
        (initial_state default_FLAGS
           (zero_parameters\<lparr>fc2_bias := Tensor [10] [1, 0, 0, 0, 0, 0, 0, 0, 0, 0]\<rparr>) Map.empty))
     = Inr [Report (- 1) 1 1 100]"
proof -
  have m: "Model idle_layers (zero_parameters\<lparr>fc2_bias := Tensor [10] [1, 0, 0, 0, 0, 0, 0, 0, 0, 0]\<rparr>) x
        = Inr [1, 0, 0, 0, 0, 0, 0, 0, 0, 0]" for x :: nat
    using Linear_zero_weight[of "[1, 0, 0, 0, 0, 0, 0, 0, 0, 0]" 10 "replicate 128 0" 128]
    by (simp add: Model_def idle_layers_def zero_parameters_def)
  show ?thesis
    by (simp add: test_def test_batch_def batches_def chunks.simps initial_state_def Let_def m
        nll_loss_sum_def nll_one_def ignore_index_def argmax_def)
qed

text \<open>
  C2.  The count of correct predictions a report shows is the number of test examples
  whose label is the index of the maximum score (\<open>test_report_accuracy\<close>), but its mean
  loss is not the mean negative log-likelihood: \<^verbatim>\<open>F.nll_loss\<close> is given raw scores and
  adds minus the score of the label.  With the parameters and the test set of C6 the
  report shows one of one correct and the mean loss \<open>-1\<close>; the mean negative
  log-likelihood of that test set is \<open>ln (e + 9) - 1\<close>, which is positive.
\<close>

theorem evaluation_loss_is_not_the_nll:
  "map_sum id stdout
     (test (Model idle_layers) CPU \<lparr>dataset = [(0::nat, 0)], batch_size = 10000, shuffle = True\<rparr>
        (\<lambda>xs. xs)
        (initial_state default_FLAGS
           (zero_parameters\<lparr>fc2_bias := Tensor [10] [1, 0, 0, 0, 0, 0, 0, 0, 0, 0]\<rparr>) Map.empty))
     = Inr [Report (- 1) 1 1 100]
   \<and> correct_count (Model idle_layers)
        (zero_parameters\<lparr>fc2_bias := Tensor [10] [1, 0, 0, 0, 0, 0, 0, 0, 0, 0]\<rparr>)
        [(0::nat, 0)] = 1
   \<and> mean_nll (Model idle_layers)
        (zero_parameters\<lparr>fc2_bias := Tensor [10] [1, 0, 0, 0, 0, 0, 0, 0, 0, 0]\<rparr>)
        [(0::nat, 0)] = ln (exp 1 + 9) - 1
   \<and> (- 1 :: real) < 0 \<and> (0 :: real) < ln (exp 1 + 9) - 1"
proof -
  let ?p = "zero_parameters\<lparr>fc2_bias := Tensor [10] [1, 0, 0, 0, 0, 0, 0, 0, 0, 0]\<rparr>"
  have m: "Model idle_layers ?p x = Inr [1, 0, 0, 0, 0, 0, 0, 0, 0, 0]" for x :: nat
    using Linear_zero_weight[of "[1, 0, 0, 0, 0, 0, 0, 0, 0, 0]" 10 "replicate 128 0" 128]
    by (simp add: Model_def idle_layers_def zero_parameters_def)
  have 1: "map_sum id stdout
     (test (Model idle_layers) CPU \<lparr>dataset = [(0::nat, 0)], batch_size = 10000, shuffle = True\<rparr>
        (\<lambda>xs. xs) (initial_state default_FLAGS ?p Map.empty)) = Inr [Report (- 1) 1 1 100]"
    by (simp add: test_def test_batch_def batches_def chunks.simps initial_state_def Let_def m
        nll_loss_sum_def nll_one_def ignore_index_def argmax_def)
  have 2: "correct_count (Model idle_layers) ?p [(0::nat, 0)] = 1"
    by (simp add: correct_count_def m top1_def)
  have 3: "mean_nll (Model idle_layers) ?p [(0::nat, 0)] = ln (exp 1 + 9) - 1"
    by (simp add: mean_nll_def m negative_log_likelihood_def)
  have "ln (exp (1::real)) < ln (exp 1 + 9)"
    by (subst ln_less_cancel_iff) (simp_all add: add_pos_pos)
  then have 4: "(0 :: real) < ln (exp 1 + 9) - 1" by simp
  show ?thesis using 1 2 3 4 by simp
qed

end
